theory Spec2Isabelle
  imports Complex_Main "HOL-Library.Stream"
begin

section \<open>JavaScript numbers\<close>

text \<open>
  Every number of the program is a JavaScript number. The embedding keeps the real
  numbers and the one value that absorbs arithmetic, \<open>NaN\<close>: it is what the code gets
  when it reads a field that an object does not have (\<open>undefined\<close>) and computes with
  it. Rounding of IEEE doubles, signed zeros and infinities are not represented: a
  finite number is its real value, and a division by zero gives \<open>NaN\<close>.
  Comparisons with \<open>NaN\<close> are false, as in JavaScript, so \<open>\<not> a < b\<close> and \<open>b \<le> a\<close>
  are different conditions and each comparison of the source is written as it stands.
\<close>

datatype jsnum = Num real | NaN

instantiation jsnum :: "{plus, minus, uminus, times, inverse, abs, ord}"
begin

definition plus_jsnum :: "jsnum \<Rightarrow> jsnum \<Rightarrow> jsnum" where
  "plus_jsnum a b =
     (case a of NaN \<Rightarrow> NaN | Num x \<Rightarrow> (case b of NaN \<Rightarrow> NaN | Num y \<Rightarrow> Num (x + y)))"

definition minus_jsnum :: "jsnum \<Rightarrow> jsnum \<Rightarrow> jsnum" where
  "minus_jsnum a b =
     (case a of NaN \<Rightarrow> NaN | Num x \<Rightarrow> (case b of NaN \<Rightarrow> NaN | Num y \<Rightarrow> Num (x - y)))"

definition uminus_jsnum :: "jsnum \<Rightarrow> jsnum" where
  "uminus_jsnum a = (case a of NaN \<Rightarrow> NaN | Num x \<Rightarrow> Num (- x))"

definition times_jsnum :: "jsnum \<Rightarrow> jsnum \<Rightarrow> jsnum" where
  "times_jsnum a b =
     (case a of NaN \<Rightarrow> NaN | Num x \<Rightarrow> (case b of NaN \<Rightarrow> NaN | Num y \<Rightarrow> Num (x * y)))"

definition divide_jsnum :: "jsnum \<Rightarrow> jsnum \<Rightarrow> jsnum" where
  "divide_jsnum a b =
     (case a of NaN \<Rightarrow> NaN
      | Num x \<Rightarrow> (case b of NaN \<Rightarrow> NaN | Num y \<Rightarrow> if y = 0 then NaN else Num (x / y)))"

definition inverse_jsnum :: "jsnum \<Rightarrow> jsnum" where
  "inverse_jsnum a = (case a of NaN \<Rightarrow> NaN | Num x \<Rightarrow> if x = 0 then NaN else Num (1 / x))"

definition abs_jsnum :: "jsnum \<Rightarrow> jsnum" where
  "abs_jsnum a = (case a of NaN \<Rightarrow> NaN | Num x \<Rightarrow> Num \<bar>x\<bar>)"

definition less_eq_jsnum :: "jsnum \<Rightarrow> jsnum \<Rightarrow> bool" where
  "less_eq_jsnum a b =
     (case a of NaN \<Rightarrow> False | Num x \<Rightarrow> (case b of NaN \<Rightarrow> False | Num y \<Rightarrow> x \<le> y))"

definition less_jsnum :: "jsnum \<Rightarrow> jsnum \<Rightarrow> bool" where
  "less_jsnum a b =
     (case a of NaN \<Rightarrow> False | Num x \<Rightarrow> (case b of NaN \<Rightarrow> False | Num y \<Rightarrow> x < y))"

instance ..

end

text \<open>\<open>Math.max\<close>, \<open>Math.min\<close>, \<open>Math.floor\<close>, \<open>Math.round\<close>, \<open>Math.hypot\<close>,
  \<open>Math.cos\<close> and \<open>Math.sin\<close>: each gives \<open>NaN\<close> as soon as an argument is \<open>NaN\<close>.\<close>

definition Math_max :: "jsnum \<Rightarrow> jsnum \<Rightarrow> jsnum" where
  "Math_max a b =
     (case a of NaN \<Rightarrow> NaN | Num x \<Rightarrow> (case b of NaN \<Rightarrow> NaN | Num y \<Rightarrow> Num (max x y)))"

definition Math_min :: "jsnum \<Rightarrow> jsnum \<Rightarrow> jsnum" where
  "Math_min a b =
     (case a of NaN \<Rightarrow> NaN | Num x \<Rightarrow> (case b of NaN \<Rightarrow> NaN | Num y \<Rightarrow> Num (min x y)))"

definition Math_floor :: "jsnum \<Rightarrow> jsnum" where
  "Math_floor a = (case a of NaN \<Rightarrow> NaN | Num x \<Rightarrow> Num (of_int \<lfloor>x\<rfloor>))"

definition Math_round :: "jsnum \<Rightarrow> jsnum" where
  "Math_round a = (case a of NaN \<Rightarrow> NaN | Num x \<Rightarrow> Num (of_int \<lfloor>x + 1 / 2\<rfloor>))"

definition Math_hypot :: "jsnum \<Rightarrow> jsnum \<Rightarrow> jsnum" where
  "Math_hypot a b =
     (case a of NaN \<Rightarrow> NaN
      | Num x \<Rightarrow> (case b of NaN \<Rightarrow> NaN | Num y \<Rightarrow> Num (sqrt (x\<^sup>2 + y\<^sup>2))))"

definition Math_cos :: "jsnum \<Rightarrow> jsnum" where
  "Math_cos a = (case a of NaN \<Rightarrow> NaN | Num x \<Rightarrow> Num (cos x))"

definition Math_sin :: "jsnum \<Rightarrow> jsnum" where
  "Math_sin a = (case a of NaN \<Rightarrow> NaN | Num x \<Rightarrow> Num (sin x))"

text \<open>\<open>Math.atan2(y, x)\<close>: the angle of the point \<open>(x, y)\<close> in \<open>(-\<pi>, \<pi>]\<close>, and 0 at
  the origin.\<close>

definition atan2 :: "real \<Rightarrow> real \<Rightarrow> real" where
  "atan2 y x =
     (if 0 < x then arctan (y / x)
      else if x < 0 then (if 0 \<le> y then arctan (y / x) + pi else arctan (y / x) - pi)
      else if 0 < y then pi / 2
      else if y < 0 then - (pi / 2)
      else 0)"

definition Math_atan2 :: "jsnum \<Rightarrow> jsnum \<Rightarrow> jsnum" where
  "Math_atan2 a b =
     (case a of NaN \<Rightarrow> NaN | Num y \<Rightarrow> (case b of NaN \<Rightarrow> NaN | Num x \<Rightarrow> Num (atan2 y x)))"

definition Math_PI :: jsnum where
  "Math_PI = Num pi"

subsection \<open>Computing with numbers\<close>

lemma Num_plus [simp]: "Num a + Num b = Num (a + b)"
  and NaN_plus [simp]: "NaN + c = NaN"
  and plus_NaN [simp]: "c + NaN = NaN"
  by (simp_all add: plus_jsnum_def split: jsnum.split)

lemma Num_minus [simp]: "Num a - Num b = Num (a - b)"
  and NaN_minus [simp]: "NaN - c = NaN"
  and minus_NaN [simp]: "c - NaN = NaN"
  by (simp_all add: minus_jsnum_def split: jsnum.split)

lemma Num_uminus [simp]: "- Num a = Num (- a)"
  and NaN_uminus [simp]: "- NaN = NaN"
  by (simp_all add: uminus_jsnum_def)

lemma Num_times [simp]: "Num a * Num b = Num (a * b)"
  and NaN_times [simp]: "NaN * c = NaN"
  and times_NaN [simp]: "c * NaN = NaN"
  by (simp_all add: times_jsnum_def split: jsnum.split)

lemma Num_divide [simp]: "Num a / Num b = (if b = 0 then NaN else Num (a / b))"
  and NaN_divide [simp]: "NaN / c = NaN"
  and divide_NaN [simp]: "c / NaN = NaN"
  by (simp_all add: divide_jsnum_def split: jsnum.split)

lemma Num_abs [simp]: "\<bar>Num a\<bar> = Num \<bar>a\<bar>"
  and NaN_abs [simp]: "\<bar>NaN\<bar> = NaN"
  by (simp_all add: abs_jsnum_def)

lemma Num_less [simp]: "Num a < Num b \<longleftrightarrow> a < b"
  and NaN_less [simp]: "\<not> NaN < c"
  and less_NaN [simp]: "\<not> c < NaN"
  by (simp_all add: less_jsnum_def split: jsnum.split)

lemma Num_less_eq [simp]: "Num a \<le> Num b \<longleftrightarrow> a \<le> b"
  and NaN_less_eq [simp]: "\<not> NaN \<le> c"
  and less_eq_NaN [simp]: "\<not> c \<le> NaN"
  by (simp_all add: less_eq_jsnum_def split: jsnum.split)

lemma Math_max_Num [simp]: "Math_max (Num a) (Num b) = Num (max a b)"
  and Math_max_NaN [simp]: "Math_max NaN c = NaN" "Math_max c NaN = NaN"
  by (simp_all add: Math_max_def split: jsnum.split)

lemma Math_min_Num [simp]: "Math_min (Num a) (Num b) = Num (min a b)"
  and Math_min_NaN [simp]: "Math_min NaN c = NaN" "Math_min c NaN = NaN"
  by (simp_all add: Math_min_def split: jsnum.split)

lemma Math_floor_Num [simp]: "Math_floor (Num a) = Num (of_int \<lfloor>a\<rfloor>)"
  and Math_floor_NaN [simp]: "Math_floor NaN = NaN"
  by (simp_all add: Math_floor_def)

lemma Math_round_Num [simp]: "Math_round (Num a) = Num (of_int \<lfloor>a + 1 / 2\<rfloor>)"
  and Math_round_NaN [simp]: "Math_round NaN = NaN"
  by (simp_all add: Math_round_def)

lemma Math_hypot_Num [simp]: "Math_hypot (Num a) (Num b) = Num (sqrt (a\<^sup>2 + b\<^sup>2))"
  and Math_hypot_NaN [simp]: "Math_hypot NaN c = NaN" "Math_hypot c NaN = NaN"
  by (simp_all add: Math_hypot_def split: jsnum.split)

lemma Math_cos_Num [simp]: "Math_cos (Num a) = Num (cos a)"
  and Math_sin_Num [simp]: "Math_sin (Num a) = Num (sin a)"
  and Math_cos_NaN [simp]: "Math_cos NaN = NaN"
  and Math_sin_NaN [simp]: "Math_sin NaN = NaN"
  by (simp_all add: Math_cos_def Math_sin_def)

lemma Math_atan2_Num [simp]: "Math_atan2 (Num a) (Num b) = Num (atan2 a b)"
  and Math_atan2_NaN [simp]: "Math_atan2 NaN c = NaN" "Math_atan2 c NaN = NaN"
  by (simp_all add: Math_atan2_def split: jsnum.split)

lemma less_jsnumE:
  assumes "a < b"
  obtains x y where "a = Num x" and "b = Num y" and "x < y"
  using assms by (cases a; cases b) simp_all


subsection \<open>Math.random\<close>

text \<open>\<open>Math.random()\<close> returns a number in \<open>[0, 1)\<close>. The outcomes of the calls a
  function makes are a stream, read in the order of the calls; a function that draws
  random numbers returns the rest of the stream with its result.\<close>

typedef random = "{r :: real. 0 \<le> r \<and> r < 1}"
  morphisms random_val Random
  by (rule exI [of _ 0]) simp

type_synonym rng = "random stream"

definition Math_random :: "rng \<Rightarrow> jsnum" where
  "Math_random rs = Num (random_val (shd rs))"

lemma random_val_bounds: "0 \<le> random_val r" "random_val r < 1"
  using random_val [of r] by simp_all

lemma random_val_Random [simp]: "0 \<le> x \<Longrightarrow> x < 1 \<Longrightarrow> random_val (Random x) = x"
  by (simp add: Random_inverse)

section \<open>Gene model (dna.js)\<close>

record gene_def =
  gene_min :: real
  gene_max :: real
  gene_default :: real
  hueShift :: real
  satShift :: real
  applies :: string

text \<open>The own properties of \<open>GENE_DEFS\<close>, in the order of the object literal.\<close>

definition GENE_DEFS :: "(string \<times> gene_def) list" where
  "GENE_DEFS =
    [(''speed'',
        \<lparr>gene_min = 7 / 10, gene_max = 15 / 10, gene_default = 1,
         hueShift = 40, satShift = 0, applies = ''cell''\<rparr>),
     (''resistance'',
        \<lparr>gene_min = 0, gene_max = 60 / 100, gene_default = 0,
         hueShift = - 25, satShift = 10, applies = ''cell''\<rparr>),
     (''shield'',
        \<lparr>gene_min = 0, gene_max = 1, gene_default = 0,
         hueShift = 30, satShift = 12, applies = ''cell''\<rparr>),
     (''division_rate'',
        \<lparr>gene_min = 5 / 10, gene_max = 25 / 10, gene_default = 1,
         hueShift = 10, satShift = - 8, applies = ''cell''\<rparr>),
     (''hunt_speed'',
        \<lparr>gene_min = 8 / 10, gene_max = 2, gene_default = 1,
         hueShift = 20, satShift = 10, applies = ''virus''\<rparr>),
     (''lethality'',
        \<lparr>gene_min = 0, gene_max = 35 / 100, gene_default = 0,
         hueShift = - 15, satShift = 15, applies = ''virus''\<rparr>)]"

text \<open>
  \<open>GENE_DEFS\<close> is an object literal, so the lookup \<open>GENE_DEFS[key]\<close> also finds the
  properties that every object inherits from \<open>Object.prototype\<close>. Each of them is a
  function (or, for \<open>__proto__\<close>, the prototype object): a truthy value that has no
  \<open>min\<close>, \<open>max\<close> or \<open>default\<close>.
\<close>

definition Object_prototype_keys :: "string list" where
  "Object_prototype_keys =
    [''constructor'', ''__defineGetter__'', ''__defineSetter__'', ''hasOwnProperty'',
     ''__lookupGetter__'', ''__lookupSetter__'', ''isPrototypeOf'',
     ''propertyIsEnumerable'', ''toString'', ''valueOf'', ''__proto__'',
     ''toLocaleString'']"

datatype gene_lookup = Undefined | Inherited | Gene gene_def

definition GENE_DEFS_at :: "string \<Rightarrow> gene_lookup" where
  "GENE_DEFS_at key =
     (case map_of GENE_DEFS key of
        Some d \<Rightarrow> Gene d
      | None \<Rightarrow> if key \<in> set Object_prototype_keys then Inherited else Undefined)"

text \<open>\<open>!def\<close>: only \<open>undefined\<close> is falsy.\<close>

definition falsy :: "gene_lookup \<Rightarrow> bool" where
  "falsy l = (l = Undefined)"

text \<open>\<open>def.min\<close>, \<open>def.max\<close> in arithmetic: a missing field is \<open>undefined\<close>, which
  arithmetic and \<open>Math.max\<close>/\<open>Math.min\<close> turn into \<open>NaN\<close>.\<close>

definition def_min :: "gene_lookup \<Rightarrow> jsnum" where
  "def_min l = (case l of Gene d \<Rightarrow> Num (gene_min d) | _ \<Rightarrow> NaN)"

definition def_max :: "gene_lookup \<Rightarrow> jsnum" where
  "def_max l = (case l of Gene d \<Rightarrow> Num (gene_max d) | _ \<Rightarrow> NaN)"

subsection \<open>The Map of active genes\<close>

text \<open>A JavaScript \<open>Map\<close> keeps its entries in insertion order: \<open>set\<close> replaces the
  value of a key in place and appends a new key at the end.\<close>

type_synonym dna = "(string \<times> jsnum) list"

fun Map_set :: "string \<Rightarrow> 'v \<Rightarrow> (string \<times> 'v) list \<Rightarrow> (string \<times> 'v) list" where
  "Map_set k v [] = [(k, v)]"
| "Map_set k v ((k', v') # m) = (if k' = k then (k, v) # m else (k', v') # Map_set k v m)"

definition Map_delete :: "string \<Rightarrow> (string \<times> 'v) list \<Rightarrow> (string \<times> 'v) list" where
  "Map_delete k m = filter (\<lambda>(k', v). k' \<noteq> k) m"

definition Map_has :: "(string \<times> 'v) list \<Rightarrow> string \<Rightarrow> bool" where
  "Map_has m k = (k \<in> set (map fst m))"

definition DNA_empty :: dna where
  "DNA_empty = []"

definition DNA_has :: "dna \<Rightarrow> string \<Rightarrow> bool" where
  "DNA_has genes gene = Map_has genes gene"

definition DNA_size :: "dna \<Rightarrow> nat" where
  "DNA_size genes = length genes"

text \<open>\<open>get\<close>: the stored value, else \<open>GENE_DEFS[gene]?.default ?? 0\<close>.\<close>

definition DNA_get :: "dna \<Rightarrow> string \<Rightarrow> jsnum" where
  "DNA_get genes gene =
     (case map_of genes gene of
        Some v \<Rightarrow> v
      | None \<Rightarrow> (case GENE_DEFS_at gene of Gene d \<Rightarrow> Num (gene_default d) | _ \<Rightarrow> Num 0))"

subsection \<open>reproduce\<close>

text \<open>
  Step 1, drift. The loop runs over the entries of \<open>newGenes\<close>; it only replaces
  values of keys that are already there, so the entries it visits are those of the
  copy made before the loop, each with its value of that moment. One random number is
  drawn for the roll of each gene and a second one when the roll succeeds and the
  lookup of the gene is truthy.
\<close>

fun drift_genes :: "(string \<times> jsnum) list \<Rightarrow> dna \<Rightarrow> jsnum \<Rightarrow> rng \<Rightarrow> dna \<times> rng" where
  "drift_genes [] newGenes mutationRate rs = (newGenes, rs)"
| "drift_genes ((gene, value) # rest) newGenes mutationRate rs =
     (if Math_random rs < mutationRate then
        (let d = GENE_DEFS_at gene in
         if falsy d then drift_genes rest newGenes mutationRate (stl rs)
         else
           (let drift = (def_max d - def_min d) * Num 0.15
                          * (Math_random (stl rs) * Num 2 - Num 1)
            in drift_genes rest
                 (Map_set gene (Math_max (def_min d) (Math_min (def_max d) (value + drift)))
                    newGenes)
                 mutationRate (stl (stl rs))))
      else drift_genes rest newGenes mutationRate (stl rs))"

text \<open>
  Step 2, emergence. The candidates are own entries of \<open>GENE_DEFS\<close>, so
  \<open>GENE_DEFS[key]\<close> of the chosen key is the definition listed with it; the index
  \<open>Math.floor(Math.random() * candidates.length)\<close> is below the length because the
  random number is below 1.
\<close>

definition random_index :: "random \<Rightarrow> nat \<Rightarrow> nat" where
  "random_index r n = nat \<lfloor>random_val r * real n\<rfloor>"

definition emerge_gene :: "dna \<Rightarrow> jsnum \<Rightarrow> string \<Rightarrow> rng \<Rightarrow> dna \<times> rng" where
  "emerge_gene newGenes mutationRate pool rs =
     (if Math_random rs < mutationRate * Num 0.4 then
        (let candidates =
               filter (\<lambda>(key, d). applies d = pool \<and> \<not> Map_has newGenes key) GENE_DEFS
         in if length candidates > 0 then
              (let (key, d) = candidates ! random_index (shd (stl rs)) (length candidates)
               in (Map_set key
                     (Num (gene_min d) + (Num (gene_max d) - Num (gene_min d)) * Num 0.1)
                     newGenes,
                   stl (stl rs)))
            else (newGenes, stl rs))
      else (newGenes, stl rs))"

text \<open>Step 3, silencing: \<open>newGenes.size > 0 && Math.random() < mutationRate * 0.15\<close>
  draws no random number when the map is empty.\<close>

definition silence_gene :: "dna \<Rightarrow> jsnum \<Rightarrow> rng \<Rightarrow> dna \<times> rng" where
  "silence_gene newGenes mutationRate rs =
     (if length newGenes > 0 then
        (if Math_random rs < mutationRate * Num 0.15 then
           (let keys = map fst newGenes
            in (Map_delete (keys ! random_index (shd (stl rs)) (length keys)) newGenes,
                stl (stl rs)))
         else (newGenes, stl rs))
      else (newGenes, rs))"

definition DNA_reproduce :: "dna \<Rightarrow> jsnum \<Rightarrow> string \<Rightarrow> rng \<Rightarrow> dna \<times> rng" where
  "DNA_reproduce genes mutationRate pool rs =
     (let (g1, rs1) = drift_genes genes genes mutationRate rs;
          (g2, rs2) = emerge_gene g1 mutationRate pool rs1
      in silence_gene g2 mutationRate rs2)"

subsection \<open>serialise and deserialise\<close>

text \<open>
  A plain object is the list of its own properties in creation order. \<open>Object.entries\<close>
  lists the keys that are array indices first, in ascending order, then the other
  keys in creation order. A value is a number or something else (a string, a boolean,
  \<open>null\<close>, an array, an object).
\<close>

datatype jsval = JNumber jsnum | JOther

type_synonym jsobject = "(string \<times> jsval) list"

definition index_value :: "string \<Rightarrow> nat" where
  "index_value k = foldl (\<lambda>n c. 10 * n + (of_char c - 48)) 0 k"

definition is_array_index :: "string \<Rightarrow> bool" where
  "is_array_index k =
     (k \<noteq> [] \<and> list_all (\<lambda>c. c \<in> set ''0123456789'') k
      \<and> (if hd k = CHR ''0'' then k = ''0'' else True)
      \<and> index_value k < 2 ^ 32 - 1)"

definition Object_entries :: "jsobject \<Rightarrow> (string \<times> jsval) list" where
  "Object_entries obj =
     sort_key (\<lambda>(k, v). index_value k) (filter (\<lambda>(k, v). is_array_index k) obj)
     @ filter (\<lambda>(k, v). \<not> is_array_index k) obj"

definition Object_fromEntries :: "(string \<times> jsval) list \<Rightarrow> jsobject" where
  "Object_fromEntries entries = fold (\<lambda>(k, v) obj. Map_set k v obj) entries []"

definition DNA_serialise :: "dna \<Rightarrow> jsobject" where
  "DNA_serialise genes = Object_fromEntries (map (\<lambda>(k, v). (k, JNumber v)) genes)"

fun deserialise_entries :: "(string \<times> jsval) list \<Rightarrow> dna \<Rightarrow> dna" where
  "deserialise_entries [] genes = genes"
| "deserialise_entries ((key, value) # rest) genes =
     (let d = GENE_DEFS_at key
      in case value of
           JOther \<Rightarrow> deserialise_entries rest genes
         | JNumber v \<Rightarrow>
             if falsy d then deserialise_entries rest genes
             else deserialise_entries rest
                    (Map_set key (Math_max (def_min d) (Math_min (def_max d) v)) genes))"

text \<open>The argument is \<open>None\<close> when it is falsy or not an object.\<close>

definition DNA_deserialise :: "jsobject option \<Rightarrow> dna" where
  "DNA_deserialise obj =
     (case obj of None \<Rightarrow> DNA_empty | Some ob \<Rightarrow> deserialise_entries (Object_entries ob) [])"

subsection \<open>withGenes and forVirus\<close>

fun withGenes_loop :: "string list \<Rightarrow> dna \<Rightarrow> dna" where
  "withGenes_loop [] genes = genes"
| "withGenes_loop (name # rest) genes =
     (let d = GENE_DEFS_at name
      in if falsy d then withGenes_loop rest genes
         else withGenes_loop rest
                (Map_set name (def_min d + (def_max d - def_min d) * Num 0.15) genes))"

definition DNA_withGenes :: "string list \<Rightarrow> dna" where
  "DNA_withGenes geneNames = withGenes_loop geneNames []"

definition DNA_forVirus :: "dna option \<Rightarrow> dna" where
  "DNA_forVirus cellDNA =
     (case cellDNA of
        None \<Rightarrow> []
      | Some c \<Rightarrow>
          (let resistance = DNA_get c ''resistance''
           in if Num 0.15 < resistance
              then Map_set ''lethality''
                     (Math_min (def_max (GENE_DEFS_at ''lethality'')) (resistance * Num 0.55)) []
              else []))"

subsection \<open>The range invariant\<close>

text \<open>The invariant of the data model: every stored value lies between \<open>min\<close> and
  \<open>max\<close> of \<open>GENE_DEFS[key]\<close>. Under a key that is no gene of the registry these are
  \<open>undefined\<close>, and no value lies between them.\<close>

definition value_in_range :: "string \<times> jsnum \<Rightarrow> bool" where
  "value_in_range e =
     (def_min (GENE_DEFS_at (fst e)) \<le> snd e \<and> snd e \<le> def_max (GENE_DEFS_at (fst e)))"

definition values_in_range :: "dna \<Rightarrow> bool" where
  "values_in_range genes = list_all value_in_range genes"

text \<open>The objects on which the clamp of \<open>deserialise\<close> works: no number stands under a
  name inherited from \<open>Object.prototype\<close>, and no \<open>NaN\<close> under a gene of the
  registry.\<close>

definition clampable :: "jsobject \<Rightarrow> bool" where
  "clampable obj =
     list_all (\<lambda>(k, v). case v of
                            JOther \<Rightarrow> True
                          | JNumber n \<Rightarrow>
                              (case GENE_DEFS_at k of
                                 Undefined \<Rightarrow> True
                               | Inherited \<Rightarrow> False
                               | Gene d \<Rightarrow> n \<noteq> NaN)) obj"

section \<open>Entity (entity.js)\<close>

text \<open>
  The constants of \<open>DEFAULTS\<close> (constants.js) that the simulation reads. The two
  bounds of the letters' bump threshold are changed by the settings at run time;
  they are parameters of the functions that read them.
\<close>

definition ICON_HALF :: jsnum where
  "ICON_HALF = Num 12"

definition MOVE_SPEED :: jsnum where
  "MOVE_SPEED = Num 5"

definition BASE_SPEED :: jsnum where
  "BASE_SPEED = Num 0.8"

definition MAX_SPEED_FACTOR :: jsnum where
  "MAX_SPEED_FACTOR = Num 2.5"

definition DRIFT_CHANCE :: jsnum where
  "DRIFT_CHANCE = Num 0.02"

definition DRIFT_MAGNITUDE :: jsnum where
  "DRIFT_MAGNITUDE = Num 0.25"

definition COLLISION_DIAMETER :: jsnum where
  "COLLISION_DIAMETER = Num 24"

definition MUTATION_RATE :: jsnum where
  "MUTATION_RATE = Num 0.10"

definition DIVISION_INTERVAL_MIN :: jsnum where
  "DIVISION_INTERVAL_MIN = Num 900"

definition DIVISION_INTERVAL_MAX :: jsnum where
  "DIVISION_INTERVAL_MAX = Num 3600"


text \<open>\<open>window.innerWidth\<close> and \<open>window.innerHeight\<close>, read at every call.\<close>

record window =
  innerWidth :: real
  innerHeight :: real

text \<open>
  The state of an entity. The fields \<open>x\<close>, \<open>y\<close>, \<open>vx\<close>, \<open>vy\<close> are \<open>e_x\<close>, \<open>e_y\<close>,
  \<open>e_vx\<close>, \<open>e_vy\<close> here. \<open>el\<close> and \<open>bodyEl\<close> say whether the DOM nodes are there
  (not \<open>null\<close>); \<open>infected\<close> and \<open>dying\<close> are the private flags. Colour, CSS classes
  and the transform written to the DOM are presentation and are left out; what
  remains of \<open>onHit\<close> is that it was acknowledged, which \<open>hitCount\<close> counts.
\<close>

record entity =
  e_x :: jsnum
  e_y :: jsnum
  e_vx :: jsnum
  e_vy :: jsnum
  rotation :: jsnum
  entityKey :: string
  name :: string
  alive :: bool
  dna :: dna
  divisionTimer :: jsnum
  el :: bool
  bodyEl :: bool
  infected :: bool
  dying :: bool
  hitCount :: nat

subsection \<open>update\<close>

text \<open>The gene that scales the step, and the position after the movement step.\<close>

definition geneMult :: "entity \<Rightarrow> jsnum" where
  "geneMult e =
     DNA_get (dna e) (if entityKey e = ''virus-filled'' then ''hunt_speed'' else ''speed'')"

definition moved_x :: "entity \<Rightarrow> jsnum \<Rightarrow> jsnum" where
  "moved_x e speedMultiplier = e_x e + e_vx e * speedMultiplier * geneMult e"

definition moved_y :: "entity \<Rightarrow> jsnum \<Rightarrow> jsnum" where
  "moved_y e speedMultiplier = e_y e + e_vy e * speedMultiplier * geneMult e"

text \<open>The four edge tests, in the order of the source; each reads the position the
  test before it may have written.\<close>

definition bounce_edges :: "entity \<Rightarrow> window \<Rightarrow> entity" where
  "bounce_edges e w =
     (let h = ICON_HALF;
          vw = Num (innerWidth w);
          vh = Num (innerHeight w);
          e1 = (if e_x e - h \<le> Num 0 then e\<lparr>e_x := h, e_vx := \<bar>e_vx e\<bar>\<rparr> else e);
          e2 = (if e_x e1 + h \<ge> vw then e1\<lparr>e_x := vw - h, e_vx := - \<bar>e_vx e1\<bar>\<rparr> else e1);
          e3 = (if e_y e2 - h \<le> Num 0 then e2\<lparr>e_y := h, e_vy := \<bar>e_vy e2\<bar>\<rparr> else e2);
          e4 = (if e_y e3 + h \<ge> vh then e3\<lparr>e_y := vh - h, e_vy := - \<bar>e_vy e3\<bar>\<rparr> else e3)
      in e4)"

text \<open>The drift kick: one random number for the roll, two more for the kick when the
  roll is below \<open>DRIFT_CHANCE\<close>, then the speed cap.\<close>

definition drift_kick :: "entity \<Rightarrow> rng \<Rightarrow> entity \<times> rng" where
  "drift_kick e rs =
     (if Math_random rs < DRIFT_CHANCE then
        (let kvx = e_vx e + (Math_random (stl rs) - Num 0.5) * DRIFT_MAGNITUDE;
             kvy = e_vy e + (Math_random (stl (stl rs)) - Num 0.5) * DRIFT_MAGNITUDE;
             spd = Math_hypot kvx kvy;
             mx = BASE_SPEED * MAX_SPEED_FACTOR
         in if spd > mx
            then (e\<lparr>e_vx := (kvx / spd) * mx, e_vy := (kvy / spd) * mx\<rparr>, stl (stl (stl rs)))
            else (e\<lparr>e_vx := kvx, e_vy := kvy\<rparr>, stl (stl (stl rs))))
      else (e, stl rs))"

definition Entity_update :: "entity \<Rightarrow> jsnum \<Rightarrow> window \<Rightarrow> rng \<Rightarrow> entity \<times> rng" where
  "Entity_update e speedMultiplier w rs =
     (if \<not> el e \<or> \<not> alive e \<or> dying e then (e, rs)
      else
        (let ticked =
               (if entityKey e = ''cell'' \<and> divisionTimer e > Num 0
                then e\<lparr>divisionTimer := divisionTimer e - Num 1\<rparr> else e);
             moved = ticked\<lparr>e_x := moved_x ticked speedMultiplier,
                             e_y := moved_y ticked speedMultiplier\<rparr>
         in drift_kick (bounce_edges moved w) rs))"

subsection \<open>Division\<close>

definition wantsToDivide :: "entity \<Rightarrow> bool" where
  "wantsToDivide e =
     (entityKey e = ''cell'' \<and> divisionTimer e = Num 0 \<and> alive e \<and> \<not> dying e)"

definition resetDivision :: "entity \<Rightarrow> rng \<Rightarrow> entity \<times> rng" where
  "resetDivision e rs =
     (let rate = DNA_get (dna e) ''division_rate'';
          lo = Math_round (DIVISION_INTERVAL_MIN / rate);
          hi = Math_round (DIVISION_INTERVAL_MAX / rate)
      in (e\<lparr>divisionTimer := lo + Math_floor (Math_random rs * (hi - lo + Num 1))\<rparr>,
          stl rs))"

text \<open>The object that \<open>divide\<close> returns, without its colour.\<close>

record config =
  c_name :: string
  c_type :: string
  c_dna :: dna
  c_x :: jsnum
  c_y :: jsnum
  c_vx :: jsnum
  c_vy :: jsnum

definition Entity_divide :: "entity \<Rightarrow> window \<Rightarrow> rng \<Rightarrow> config \<times> rng" where
  "Entity_divide e w rs =
     (let h = ICON_HALF;
          offset = COLLISION_DIAMETER * Num 0.65;
          angle = Math_random rs * Math_PI * Num 2;
          nx = Math_cos angle;
          ny = Math_sin angle;
          (childDna, rs') = DNA_reproduce (dna e) MUTATION_RATE ''cell'' (stl rs);
          vw = Num (innerWidth w);
          vh = Num (innerHeight w);
          cx = Math_max h (Math_min (vw - h) (e_x e + nx * offset));
          cy = Math_max h (Math_min (vh - h) (e_y e + ny * offset))
      in (\<lparr>c_name = ''cell'', c_type = ''good'', c_dna = childDna,
           c_x = cx, c_y = cy,
           c_vx = nx * BASE_SPEED, c_vy = ny * BASE_SPEED\<rparr>,
          rs'))"

subsection \<open>onHit, die and infectWith\<close>

definition onHit :: "entity \<Rightarrow> entity" where
  "onHit e =
     (if \<not> bodyEl e \<or> \<not> alive e \<or> dying e then e else e\<lparr>hitCount := Suc (hitCount e)\<rparr>)"

definition die :: "entity \<Rightarrow> entity" where
  "die e =
     (if dying e \<or> \<not> bodyEl e \<or> \<not> alive e then e
      else e\<lparr>dying := True, e_vx := Num 0, e_vy := Num 0\<rparr>)"

text \<open>\<open>infectWith\<close> is asynchronous; this is what it does before its first \<open>await\<close>,
  which is all that happens inside the frame that calls it.\<close>

definition infectWith :: "entity \<Rightarrow> string \<Rightarrow> bool \<Rightarrow> dna option \<Rightarrow> entity" where
  "infectWith e iconName force newDna =
     (if dying e \<or> \<not> bodyEl e \<or> \<not> alive e then e
      else if \<not> force \<and> infected e then e
      else (let e1 = e\<lparr>infected := True, entityKey := iconName\<rparr>
            in case newDna of None \<Rightarrow> e1 | Some g \<Rightarrow> e1\<lparr>dna := g\<rparr>))"

section \<open>Simulation engine (evolution.js)\<close>

text \<open>What the frame loop reads of the controller besides the entity list: the kill
  chance of a virus contact, whether \<open>icons.json\<close> is loaded (\<open>iconsData\<close> is not
  \<open>null\<close>) and whether the container is set.\<close>

record controller =
  virusKillChance :: jsnum
  iconsData :: bool
  container :: bool

subsection \<open>The division block of the frame loop\<close>



subsection \<open>Virus contact\<close>

text \<open>The two loops that bring the angle difference into \<open>[-\<pi>, \<pi>]\<close>. On numbers they
  end: each round moves the difference by \<open>2\<pi>\<close> towards the interval.\<close>

function normalise_down :: "jsnum \<Rightarrow> jsnum" where
  "normalise_down diff =
     (if diff > Math_PI then normalise_down (diff - Math_PI * Num 2) else diff)"
  by pat_completeness auto
termination
proof (relation "measure (\<lambda>d. case d of NaN \<Rightarrow> 0 | Num r \<Rightarrow> nat \<lceil>(r - pi) / (2 * pi)\<rceil>)")
  show "wf (measure (\<lambda>d. case d of NaN \<Rightarrow> 0 | Num r \<Rightarrow> nat \<lceil>(r - pi) / (2 * pi)\<rceil>))"
    by simp
next
  fix diff :: jsnum
  assume "diff > Math_PI"
  then obtain r where r: "diff = Num r" and gt: "pi < r"
    by (cases diff) (simp_all add: Math_PI_def)
  have eq: "(r - pi * 2 - pi) / (2 * pi) = (r - pi) / (2 * pi) - 1"
    by (simp add: field_simps)
  from gt have "0 < (r - pi) / (2 * pi)" by simp
  then have "0 < \<lceil>(r - pi) / (2 * pi)\<rceil>" by simp
  then have "nat \<lceil>(r - pi) / (2 * pi) - 1\<rceil> < nat \<lceil>(r - pi) / (2 * pi)\<rceil>"
    by simp
  with r eq show "(diff - Math_PI * Num 2, diff)
      \<in> measure (\<lambda>d. case d of NaN \<Rightarrow> 0 | Num r \<Rightarrow> nat \<lceil>(r - pi) / (2 * pi)\<rceil>)"
    by (simp add: Math_PI_def)
qed

function normalise_up :: "jsnum \<Rightarrow> jsnum" where
  "normalise_up diff =
     (if diff < - Math_PI then normalise_up (diff + Math_PI * Num 2) else diff)"
  by pat_completeness auto
termination
proof (relation "measure (\<lambda>d. case d of NaN \<Rightarrow> 0 | Num r \<Rightarrow> nat \<lceil>(- pi - r) / (2 * pi)\<rceil>)")
  show "wf (measure (\<lambda>d. case d of NaN \<Rightarrow> 0 | Num r \<Rightarrow> nat \<lceil>(- pi - r) / (2 * pi)\<rceil>))"
    by simp
next
  fix diff :: jsnum
  assume "diff < - Math_PI"
  then obtain r where r: "diff = Num r" and lt: "r < - pi"
    by (cases diff) (simp_all add: Math_PI_def)
  have eq: "(- pi - (r + pi * 2)) / (2 * pi) = (- pi - r) / (2 * pi) - 1"
    by (simp add: field_simps)
  from lt have "0 < (- pi - r) / (2 * pi)" by simp
  then have "0 < \<lceil>(- pi - r) / (2 * pi)\<rceil>" by simp
  then have "nat \<lceil>(- pi - r) / (2 * pi) - 1\<rceil> < nat \<lceil>(- pi - r) / (2 * pi)\<rceil>"
    by simp
  with r eq show "(diff + Math_PI * Num 2, diff)
      \<in> measure (\<lambda>d. case d of NaN \<Rightarrow> 0 | Num r \<Rightarrow> nat \<lceil>(- pi - r) / (2 * pi)\<rceil>)"
    by (simp add: Math_PI_def)
qed

declare normalise_down.simps [simp del] normalise_up.simps [simp del]

text \<open>The shield check of \<open>resolveVirusContact\<close>: true where the source returns before
  the kill roll.\<close>

definition shield_blocks :: "entity \<Rightarrow> jsnum \<Rightarrow> bool" where
  "shield_blocks target approachAngle =
     (let shieldStrength = DNA_get (dna target) ''shield''
      in if shieldStrength > Num 0 then
           (let spd = Math_hypot (e_vx target) (e_vy target)
            in if spd > Num 0.01 then
                 (let frontAngle = Math_atan2 (e_vy target) (e_vx target);
                      halfWidth = shieldStrength * (Math_PI / Num 2);
                      diff = normalise_up (normalise_down (approachAngle - frontAngle))
                  in \<bar>diff\<bar> < halfWidth)
               else False)
         else False)"

text \<open>\<open>resolveVirusContact\<close> changes the target only; it returns the target and the
  random numbers that are left.\<close>

definition resolveVirusContact ::
  "controller \<Rightarrow> entity \<Rightarrow> entity \<Rightarrow> jsnum \<Rightarrow> rng \<Rightarrow> entity \<times> rng" where
  "resolveVirusContact c virus target approachAngle rs =
     (if shield_blocks target approachAngle then (target, rs)
      else
        (let resistance = DNA_get (dna target) ''resistance'';
             killChance = Math_max (Num 0) (virusKillChance c - resistance);
             lethalBonus = DNA_get (dna virus) ''lethality'';
             effectiveKill = Math_min (Num 1) (killChance + lethalBonus)
         in if Math_random rs < effectiveKill then (die target, stl rs) else (target, stl rs)))"

subsection \<open>Entity collisions\<close>

text \<open>
  The body of the two loops of \<open>checkCollisions\<close> for one pair, \<open>a\<close> before \<open>b\<close> in
  the list, in the steps the source names: the elastic impulse along the normal
  \<open>(nx, ny)\<close>, the positional correction, the visual feedback, the bug infection and
  the virus contact. Each step takes the two entities as the step before left them.
\<close>

definition elastic_impulse :: "entity \<Rightarrow> entity \<Rightarrow> jsnum \<Rightarrow> jsnum \<Rightarrow> entity \<times> entity" where
  "elastic_impulse a b nx ny =
     (let aIsBug = (entityKey a = ''bug'');
          bIsBug = (entityKey b = ''bug'');
          dot = (e_vx a - e_vx b) * nx + (e_vy a - e_vy b) * ny
      in if dot > Num 0 then
           (if aIsBug \<or> bIsBug then
              (if aIsBug
               then (a\<lparr>e_vx := e_vx a - dot * nx, e_vy := e_vy a - dot * ny\<rparr>, b)
               else (a, b\<lparr>e_vx := e_vx b + dot * nx, e_vy := e_vy b + dot * ny\<rparr>))
            else
              (a\<lparr>e_vx := e_vx a - dot * nx, e_vy := e_vy a - dot * ny\<rparr>,
               b\<lparr>e_vx := e_vx b + dot * nx, e_vy := e_vy b + dot * ny\<rparr>))
         else (a, b))"

definition push_apart :: "entity \<Rightarrow> entity \<Rightarrow> jsnum \<Rightarrow> jsnum \<Rightarrow> jsnum \<Rightarrow> entity \<times> entity" where
  "push_apart a b half nx ny =
     (a\<lparr>e_x := e_x a - half * nx, e_y := e_y a - half * ny\<rparr>,
      b\<lparr>e_x := e_x b + half * nx, e_y := e_y b + half * ny\<rparr>)"

definition hit_feedback :: "entity \<Rightarrow> entity \<Rightarrow> entity \<times> entity" where
  "hit_feedback a b =
     (let aIsBug = (entityKey a = ''bug'');
          bIsBug = (entityKey b = ''bug'')
      in if \<not> aIsBug \<and> \<not> bIsBug then (onHit a, onHit b)
         else if aIsBug then (onHit a, b)
         else (a, onHit b))"

definition bug_infection :: "entity \<Rightarrow> entity \<Rightarrow> entity \<times> entity" where
  "bug_infection a b =
     (let bugImmune = {''bug'', ''bacteria''}
      in if entityKey a = ''bug'' then
           (if entityKey b = ''virus-filled''
            then (a, infectWith b ''cell'' True None)
            else if entityKey b \<notin> bugImmune
            then (a, infectWith b ''virus-filled'' False (Some (DNA_forVirus (Some (dna b)))))
            else (a, b))
         else if entityKey b = ''bug'' then
           (if entityKey a = ''virus-filled''
            then (infectWith a ''cell'' True None, b)
            else if entityKey a \<notin> bugImmune
            then (infectWith a ''virus-filled'' False (Some (DNA_forVirus (Some (dna a)))), b)
            else (a, b))
         else (a, b))"

definition virus_contact ::
  "controller \<Rightarrow> entity \<Rightarrow> entity \<Rightarrow> jsnum \<Rightarrow> jsnum \<Rightarrow> rng \<Rightarrow> entity \<times> entity \<times> rng" where
  "virus_contact c a b nx ny rs =
     (let virusImmune = {''bug'', ''virus-filled'', ''bacteria''};
          aIsVirus = (entityKey a = ''virus-filled'');
          bIsVirus = (entityKey b = ''virus-filled'')
      in if aIsVirus \<and> entityKey b \<notin> virusImmune then
           (let approachAngle = Math_atan2 (- ny) (- nx);
                (b', rs') = resolveVirusContact c a b approachAngle rs
            in (a, b', rs'))
         else if bIsVirus \<and> entityKey a \<notin> virusImmune then
           (let approachAngle = Math_atan2 ny nx;
                (a', rs') = resolveVirusContact c b a approachAngle rs
            in (a', b, rs'))
         else (a, b, rs))"

definition collide_pair ::
  "controller \<Rightarrow> entity \<Rightarrow> entity \<Rightarrow> rng \<Rightarrow> entity \<times> entity \<times> rng" where
  "collide_pair c a b rs =
     (if \<not> alive a \<or> \<not> alive b \<or> dying a \<or> dying b then (a, b, rs)
      else
        (let diameter = COLLISION_DIAMETER;
             dx = e_x b - e_x a;
             dy = e_y b - e_y a;
             dist = Math_hypot dx dy
         in if dist \<ge> diameter \<or> dist = Num 0 then (a, b, rs)
            else
              (let nx = dx / dist;
                   ny = dy / dist;
                   (a1, b1) = elastic_impulse a b nx ny;
                   half = (diameter - dist) / Num 2;
                   (a2, b2) = push_apart a1 b1 half nx ny;
                   (a3, b3) = hit_feedback a2 b2
               in if \<not> iconsData c then (a3, b3, rs)
                  else
                    (let (a4, b4) = bug_infection a3 b3
                     in virus_contact c a4 b4 nx ny rs))))"

text \<open>\<open>for i\<close>, \<open>for j = i + 1\<close>: the entities are objects of the array, changed in
  place.\<close>

definition collide_at :: "controller \<Rightarrow> nat \<Rightarrow> nat \<Rightarrow> entity list \<times> rng \<Rightarrow> entity list \<times> rng" where
  "collide_at c i j st =
     (let (entities, rs) = st;
          (a', b', rs') = collide_pair c (entities ! i) (entities ! j) rs
      in (entities[i := a', j := b'], rs'))"

definition checkCollisions :: "controller \<Rightarrow> entity list \<Rightarrow> rng \<Rightarrow> entity list \<times> rng" where
  "checkCollisions c entities rs =
     fold (\<lambda>i. fold (collide_at c i) [Suc i ..< length entities]) [0 ..< length entities]
       (entities, rs)"

section \<open>Logo letters (logoLetter.js, logoController.js)\<close>

definition LOGO_COLLISION_DIAMETER :: jsnum where
  "LOGO_COLLISION_DIAMETER = Num 30"

definition LOGO_EJECT_IMPULSE :: jsnum where
  "LOGO_EJECT_IMPULSE = Num 2.2"

text \<open>The bounds of the bump threshold, \<open>DEFAULTS.LOGO_BUMP_THRESHOLD_MIN\<close> and
  \<open>DEFAULTS.LOGO_BUMP_THRESHOLD_MAX\<close>, as the settings have them at the moment of the
  call.\<close>

record threshold_range =
  LOGO_BUMP_THRESHOLD_MIN :: jsnum
  LOGO_BUMP_THRESHOLD_MAX :: jsnum

text \<open>The state of a letter; \<open>x\<close>, \<open>y\<close>, \<open>vx\<close>, \<open>vy\<close> are \<open>l_x\<close>, \<open>l_y\<close>, \<open>l_vx\<close>,
  \<open>l_vy\<close>. The DOM nodes of a letter only show its state and are left out.\<close>

record letter =
  l_x :: jsnum
  l_y :: jsnum
  l_vx :: jsnum
  l_vy :: jsnum
  slotIndex :: jsnum
  ejected :: bool
  bumpCount :: jsnum
  totalHits :: jsnum
  bumpThreshold :: jsnum
  mounted :: bool

text \<open>\<open>onBump\<close> counts the hit and returns whether this hit triggers the ejection.\<close>

definition onBump :: "letter \<Rightarrow> letter \<times> bool" where
  "onBump l =
     (let l1 = l\<lparr>bumpCount := bumpCount l + Num 1, totalHits := totalHits l + Num 1\<rparr>
      in (l1, \<not> ejected l1 \<and> bumpCount l1 > bumpThreshold l1))"

definition eject :: "letter \<Rightarrow> jsnum \<Rightarrow> jsnum \<Rightarrow> letter" where
  "eject l impulseVx impulseVy = l\<lparr>ejected := True, l_vx := impulseVx, l_vy := impulseVy\<rparr>"

text \<open>A new threshold: \<open>MIN + Math.floor(Math.random() * (MAX - MIN))\<close>.\<close>

definition random_threshold :: "threshold_range \<Rightarrow> rng \<Rightarrow> jsnum" where
  "random_threshold cfg rs =
     LOGO_BUMP_THRESHOLD_MIN cfg
     + Math_floor (Math_random rs
                   * (LOGO_BUMP_THRESHOLD_MAX cfg - LOGO_BUMP_THRESHOLD_MIN cfg))"

text \<open>The distance test of \<open>checkCollisionsWithEntities\<close> for one entity and one
  letter: true when the body of the inner loop runs to the bump.\<close>

definition letter_distance :: "entity \<Rightarrow> letter \<Rightarrow> jsnum" where
  "letter_distance e l = Math_hypot (e_x e - l_x l) (e_y e - l_y l)"

definition touches :: "entity \<Rightarrow> letter \<Rightarrow> bool" where
  "touches e l =
     (mounted l
      \<and> \<not> (letter_distance e l \<ge> LOGO_COLLISION_DIAMETER \<or> letter_distance e l = Num 0))"

text \<open>The body of the inner loop: the entity reflects and is pushed out, the letter is
  bumped and, when \<open>onBump\<close> says so, ejected with a cleared counter and a new
  threshold.\<close>

definition letter_contact ::
  "threshold_range \<Rightarrow> entity \<Rightarrow> letter \<Rightarrow> rng \<Rightarrow> entity \<times> letter \<times> rng" where
  "letter_contact cfg e l rs =
     (if \<not> touches e l then (e, l, rs)
      else
        (let colDiam = LOGO_COLLISION_DIAMETER;
             dx = e_x e - l_x l;
             dy = e_y e - l_y l;
             dist = letter_distance e l;
             nx = dx / dist;
             ny = dy / dist;
             dot = (e_vx e - l_vx l) * nx + (e_vy e - l_vy l) * ny;
             e1 = (if dot < Num 0
                   then e\<lparr>e_vx := e_vx e - Num 2 * dot * nx, e_vy := e_vy e - Num 2 * dot * ny\<rparr>
                   else e);
             overlap = colDiam - dist;
             e2 = e1\<lparr>e_x := e_x e1 + overlap * nx, e_y := e_y e1 + overlap * ny\<rparr>;
             e3 = onHit e2;
             (l1, shouldEject) = onBump l
         in if shouldEject then
              (let ejVx = - nx * LOGO_EJECT_IMPULSE;
                   ejVy = - ny * LOGO_EJECT_IMPULSE;
                   l2 = eject l1 ejVx ejVy;
                   l3 = l2\<lparr>bumpCount := Num 0, bumpThreshold := random_threshold cfg rs\<rparr>
               in (e3, l3, stl rs))
            else (e3, l1, rs)))"

fun letters_loop ::
  "threshold_range \<Rightarrow> entity \<Rightarrow> letter list \<Rightarrow> rng \<Rightarrow> entity \<times> letter list \<times> rng" where
  "letters_loop cfg e [] rs = (e, [], rs)"
| "letters_loop cfg e (l # ls) rs =
     (let (e1, l1, rs1) = letter_contact cfg e l rs;
          (e2, ls1, rs2) = letters_loop cfg e1 ls rs1
      in (e2, l1 # ls1, rs2))"

fun entities_loop ::
  "threshold_range \<Rightarrow> entity list \<Rightarrow> letter list \<Rightarrow> rng
   \<Rightarrow> entity list \<times> letter list \<times> rng" where
  "entities_loop cfg [] ls rs = ([], ls, rs)"
| "entities_loop cfg (e # es) ls rs =
     (if \<not> alive e \<or> dying e then
        (let (es1, ls1, rs1) = entities_loop cfg es ls rs in (e # es1, ls1, rs1))
      else
        (let (e1, ls1, rs1) = letters_loop cfg e ls rs;
             (es2, ls2, rs2) = entities_loop cfg es ls1 rs1
         in (e1 # es2, ls2, rs2)))"

text \<open>\<open>ready\<close> is the controller's flag of that name.\<close>

definition checkCollisionsWithEntities ::
  "bool \<Rightarrow> threshold_range \<Rightarrow> entity list \<Rightarrow> letter list \<Rightarrow> rng
   \<Rightarrow> entity list \<times> letter list \<times> rng" where
  "checkCollisionsWithEntities ready cfg entities letters rs =
     (if \<not> ready then (entities, letters, rs) else entities_loop cfg entities letters rs)"

section \<open>Properties of the gene model\<close>

text \<open>
  Claim C9. For a gene name that is neither active in the trait-set nor a gene of
  the registry, \<open>get\<close> returns exactly 0. The function has no failing branch: it is
  defined on every string.
\<close>

theorem DNA_get_unknown_gene:
  assumes "\<not> DNA_has genes gene" and "gene \<notin> set (map fst GENE_DEFS)"
  shows "DNA_get genes gene = Num 0"
proof -
  from assms(1) have "map_of genes gene = None"
    by (simp add: DNA_has_def Map_has_def map_of_eq_None_iff)
  moreover from assms(2) have "map_of GENE_DEFS gene = None"
    by (simp add: map_of_eq_None_iff)
  ultimately show ?thesis
    by (simp add: DNA_get_def GENE_DEFS_at_def)
qed

theorem DNA_get_unknown_gene_witness:
  "\<not> DNA_has [(''speed'', Num 1)] ''toString''
   \<and> ''toString'' \<notin> set (map fst GENE_DEFS)
   \<and> DNA_get [(''speed'', Num 1)] ''toString'' = Num 0"
proof -
  have a: "\<not> DNA_has [(''speed'', Num 1)] ''toString''"
    by (simp add: DNA_has_def Map_has_def)
  have b: "''toString'' \<notin> set (map fst GENE_DEFS)"
    by (simp add: GENE_DEFS_def)
  from a b DNA_get_unknown_gene [OF a b] show ?thesis by simp
qed

subsection \<open>reproduce at mutation rate 0\<close>

lemma Math_random_nonneg: "\<not> Math_random rs < Num 0"
  using random_val_bounds(1) [of "shd rs"] by (simp add: Math_random_def)

lemma drift_genes_rate_zero: "fst (drift_genes es g (Num 0) rs) = g"
  by (induction es arbitrary: rs) (auto simp: Math_random_nonneg)

lemma emerge_gene_rate_zero: "fst (emerge_gene g (Num 0) pool rs) = g"
  by (simp add: emerge_gene_def Math_random_nonneg)

lemma silence_gene_rate_zero: "fst (silence_gene g (Num 0) rs) = g"
  by (simp add: silence_gene_def Math_random_nonneg)

text \<open>
  Claim C4. For every trait-set, every gene pool and every outcome of the random
  numbers, \<open>reproduce\<close> called with mutation rate 0 returns the parent's entries, keys
  and values, in the same order: no roll of the drift, emergence or silencing step is
  below 0.
\<close>

theorem reproduce_rate_zero: "fst (DNA_reproduce genes (Num 0) pool rs) = genes"
proof -
  obtain g1 rs1 where d: "drift_genes genes genes (Num 0) rs = (g1, rs1)"
    by (cases "drift_genes genes genes (Num 0) rs")
  have g1: "g1 = genes"
    using drift_genes_rate_zero [of genes genes rs] by (simp add: d)
  obtain g2 rs2 where e: "emerge_gene genes (Num 0) pool rs1 = (g2, rs2)"
    by (cases "emerge_gene genes (Num 0) pool rs1")
  have g2: "g2 = genes"
    using emerge_gene_rate_zero [of genes pool rs1] by (simp add: e)
  have "fst (silence_gene genes (Num 0) rs2) = genes"
    by (rule silence_gene_rate_zero)
  then show ?thesis
    by (simp add: DNA_reproduce_def d g1 e g2)
qed

subsection \<open>Values stay in range\<close>

lemma GENE_DEFS_distinct: "distinct (map fst GENE_DEFS)"
  by (simp add: GENE_DEFS_def)

lemma GENE_DEFS_min_le_max:
  assumes "(k, d) \<in> set GENE_DEFS"
  shows "gene_min d \<le> gene_max d"
  using assms by (auto simp: GENE_DEFS_def)

lemma GENE_DEFS_at_Gene: "GENE_DEFS_at k = Gene d \<longleftrightarrow> map_of GENE_DEFS k = Some d"
  by (simp add: GENE_DEFS_at_def split: option.split)

lemma GENE_DEFS_at_range:
  assumes "GENE_DEFS_at k = Gene d"
  shows "gene_min d \<le> gene_max d"
proof -
  from assms have "map_of GENE_DEFS k = Some d" by (simp add: GENE_DEFS_at_Gene)
  then have "(k, d) \<in> set GENE_DEFS" by (rule map_of_SomeD)
  then show ?thesis by (rule GENE_DEFS_min_le_max)
qed

lemma value_in_rangeE:
  assumes "value_in_range (k, v)"
  obtains d r where "GENE_DEFS_at k = Gene d" and "v = Num r"
    and "gene_min d \<le> r" and "r \<le> gene_max d"
  using assms
  by (cases "GENE_DEFS_at k"; cases v) (simp_all add: value_in_range_def def_min_def def_max_def)

lemma value_in_rangeI:
  assumes "GENE_DEFS_at k = Gene d" and "gene_min d \<le> r" and "r \<le> gene_max d"
  shows "value_in_range (k, Num r)"
  using assms by (simp add: value_in_range_def def_min_def def_max_def)

lemma values_in_range_Map_set:
  "values_in_range g \<Longrightarrow> value_in_range (k, v) \<Longrightarrow> values_in_range (Map_set k v g)"
  by (induction g) (auto simp: values_in_range_def)

lemma values_in_range_Map_delete:
  "values_in_range g \<Longrightarrow> values_in_range (Map_delete k g)"
  by (induction g) (auto simp: values_in_range_def Map_delete_def)

lemma clamp_in_range:
  assumes "GENE_DEFS_at k = Gene g"
  shows "value_in_range (k, Math_max (def_min (Gene g)) (Math_min (def_max (Gene g)) (Num r)))"
proof -
  from assms have "gene_min g \<le> gene_max g" by (rule GENE_DEFS_at_range)
  then have "gene_min g \<le> max (gene_min g) (min (gene_max g) r)"
    and "max (gene_min g) (min (gene_max g) r) \<le> gene_max g"
    by simp_all
  with assms have "value_in_range (k, Num (max (gene_min g) (min (gene_max g) r)))"
    by (rule value_in_rangeI)
  then show ?thesis by (simp add: def_min_def def_max_def)
qed

lemma drift_step_in_range:
  assumes "value_in_range (k, v)"
  shows "\<not> falsy (GENE_DEFS_at k)"
    and "value_in_range (k, Math_max (def_min (GENE_DEFS_at k)) (Math_min (def_max (GENE_DEFS_at k))
           (v + (def_max (GENE_DEFS_at k) - def_min (GENE_DEFS_at k)) * Num c
                * (Math_random rs * Num 2 - Num 1))))"
proof -
  from assms obtain d r where d: "GENE_DEFS_at k = Gene d" and r: "v = Num r"
    by (rule value_in_rangeE)
  from d show "\<not> falsy (GENE_DEFS_at k)" by (simp add: falsy_def)
  have "v + (def_max (Gene d) - def_min (Gene d)) * Num c * (Math_random rs * Num 2 - Num 1)
        = Num (r + (gene_max d - gene_min d) * c * (random_val (shd rs) * 2 - 1))"
    by (simp add: r def_min_def def_max_def Math_random_def)
  with clamp_in_range [OF d] d
  show "value_in_range (k, Math_max (def_min (GENE_DEFS_at k)) (Math_min (def_max (GENE_DEFS_at k))
           (v + (def_max (GENE_DEFS_at k) - def_min (GENE_DEFS_at k)) * Num c
                * (Math_random rs * Num 2 - Num 1))))"
    by simp
qed

lemma drift_genes_in_range:
  "values_in_range es \<Longrightarrow> values_in_range g
   \<Longrightarrow> values_in_range (fst (drift_genes es g mutationRate rs))"
proof (induction es arbitrary: g rs)
  case Nil
  then show ?case by simp
next
  case (Cons e es)
  obtain k v where e: "e = (k, v)" by (cases e)
  from Cons.prems(1) e have kv: "value_in_range (k, v)" and es: "values_in_range es"
    by (simp_all add: values_in_range_def)
  from kv have nf: "\<not> falsy (GENE_DEFS_at k)" by (rule drift_step_in_range(1))
  show ?case
  proof (cases "Math_random rs < mutationRate")
    case True
    have "value_in_range (k, Math_max (def_min (GENE_DEFS_at k)) (Math_min (def_max (GENE_DEFS_at k))
           (v + (def_max (GENE_DEFS_at k) - def_min (GENE_DEFS_at k)) * Num 0.15
                * (Math_random (stl rs) * Num 2 - Num 1))))"
      using kv by (rule drift_step_in_range(2))
    with Cons.prems(2) have "values_in_range (Map_set k (Math_max (def_min (GENE_DEFS_at k))
           (Math_min (def_max (GENE_DEFS_at k))
           (v + (def_max (GENE_DEFS_at k) - def_min (GENE_DEFS_at k)) * Num 0.15
                * (Math_random (stl rs) * Num 2 - Num 1)))) g)"
      by (rule values_in_range_Map_set)
    from Cons.IH [OF es this] True nf e show ?thesis by (simp add: Let_def)
  next
    case False
    with Cons.IH [OF es Cons.prems(2)] e show ?thesis by simp
  qed
qed

lemma random_index_less: "0 < n \<Longrightarrow> random_index r n < n"
proof -
  assume n: "0 < n"
  have "random_val r * real n < real n"
    using random_val_bounds(2) [of r] n by simp
  then have "\<lfloor>random_val r * real n\<rfloor> < int n"
    by (simp add: floor_less_iff)
  moreover have "0 \<le> \<lfloor>random_val r * real n\<rfloor>"
    using random_val_bounds(1) [of r] by simp
  ultimately show ?thesis by (simp add: random_index_def nat_less_iff)
qed

lemma emerge_gene_in_range:
  assumes "values_in_range g"
  shows "values_in_range (fst (emerge_gene g mutationRate pool rs))"
proof -
  let ?cands = "filter (\<lambda>(key, d). applies d = pool \<and> \<not> Map_has g key) GENE_DEFS"
  show ?thesis
  proof (cases "Math_random rs < mutationRate * Num 0.4 \<and> 0 < length ?cands")
    case True
    obtain key d where kd: "?cands ! random_index (shd (stl rs)) (length ?cands) = (key, d)"
      by (cases "?cands ! random_index (shd (stl rs)) (length ?cands)")
    from True have "random_index (shd (stl rs)) (length ?cands) < length ?cands"
      by (simp add: random_index_less)
    then have "?cands ! random_index (shd (stl rs)) (length ?cands) \<in> set ?cands"
      by (rule nth_mem)
    with kd have mem: "(key, d) \<in> set GENE_DEFS" by simp
    then have le: "gene_min d \<le> gene_max d" by (rule GENE_DEFS_min_le_max)
    from mem have "map_of GENE_DEFS key = Some d"
      using GENE_DEFS_distinct by simp
    then have "GENE_DEFS_at key = Gene d" by (simp add: GENE_DEFS_at_Gene)
    moreover from le have "gene_min d \<le> gene_min d + (gene_max d - gene_min d) * 0.1"
      and "gene_min d + (gene_max d - gene_min d) * 0.1 \<le> gene_max d"
      by (simp_all add: field_simps)
    ultimately have "value_in_range (key, Num (gene_min d + (gene_max d - gene_min d) * 0.1))"
      by (rule value_in_rangeI)
    then have "value_in_range
        (key, Num (gene_min d) + (Num (gene_max d) - Num (gene_min d)) * Num 0.1)"
      by simp
    with assms have "values_in_range
        (Map_set key (Num (gene_min d) + (Num (gene_max d) - Num (gene_min d)) * Num 0.1) g)"
      by (rule values_in_range_Map_set)
    with True kd show ?thesis by (simp add: emerge_gene_def Let_def)
  next
    case False
    with assms show ?thesis by (auto simp: emerge_gene_def Let_def)
  qed
qed

lemma silence_gene_in_range:
  "values_in_range g \<Longrightarrow> values_in_range (fst (silence_gene g mutationRate rs))"
  by (auto simp: silence_gene_def Let_def values_in_range_Map_delete)

text \<open>
  What the code keeps of the invariant. If every value of a trait-set lies in the range
  of its gene, the same holds for the trait-set that \<open>reproduce\<close> returns, at any
  mutation rate, for any pool and for any outcome of the random numbers: drift clamps,
  emergence starts at \<open>min + 10%\<close> of the range, silencing only removes.
\<close>

lemma reproduce_in_range:
  assumes "values_in_range genes"
  shows "values_in_range (fst (DNA_reproduce genes mutationRate pool rs))"
proof -
  obtain g1 rs1 where d: "drift_genes genes genes mutationRate rs = (g1, rs1)"
    by (cases "drift_genes genes genes mutationRate rs")
  obtain g2 rs2 where e: "emerge_gene g1 mutationRate pool rs1 = (g2, rs2)"
    by (cases "emerge_gene g1 mutationRate pool rs1")
  have "values_in_range g1"
    using drift_genes_in_range [OF assms assms, of mutationRate rs] by (simp add: d)
  then have "values_in_range g2"
    using emerge_gene_in_range [of g1 mutationRate pool rs1] by (simp add: e)
  then have "values_in_range (fst (silence_gene g2 mutationRate rs2))"
    by (rule silence_gene_in_range)
  then show ?thesis by (simp add: DNA_reproduce_def d e)
qed

lemma deserialise_entries_in_range:
  "clampable es \<Longrightarrow> values_in_range g \<Longrightarrow> values_in_range (deserialise_entries es g)"
proof (induction es arbitrary: g)
  case Nil
  then show ?case by simp
next
  case (Cons e es)
  obtain k v where e: "e = (k, v)" by (cases e)
  from Cons.prems(1) e have es: "clampable es"
    by (simp add: clampable_def)
  show ?case
  proof (cases "\<exists>n. v = JNumber n \<and> \<not> falsy (GENE_DEFS_at k)")
    case True
    then obtain n where n: "v = JNumber n" and nf: "\<not> falsy (GENE_DEFS_at k)" by blast
    from Cons.prems(1) e n nf obtain d r where d: "GENE_DEFS_at k = Gene d" and r: "n = Num r"
      by (cases "GENE_DEFS_at k"; cases n) (simp_all add: clampable_def falsy_def)
    from d have "value_in_range (k, Math_max (def_min (Gene d)) (Math_min (def_max (Gene d)) (Num r)))"
      by (rule clamp_in_range)
    with Cons.prems(2) have "values_in_range (Map_set k (Math_max (def_min (Gene d))
              (Math_min (def_max (Gene d)) (Num r))) g)"
      by (rule values_in_range_Map_set)
    from Cons.IH [OF es this] e n nf d r show ?thesis by (simp add: Let_def)
  next
    case False
    with Cons.IH [OF es Cons.prems(2)] e show ?thesis
      by (cases v) (simp_all add: Let_def)
  qed
qed

lemma Object_entries_clampable: "clampable obj \<Longrightarrow> clampable (Object_entries obj)"
proof -
  assume a: "clampable obj"
  have "set (Object_entries obj) \<subseteq> set obj"
    by (auto simp: Object_entries_def)
  with a show ?thesis
    by (auto simp: clampable_def list_all_iff)
qed

text \<open>
  The same holds for the trait-set that \<open>deserialise\<close> builds from an argument that is
  no object, and from an object that holds no number under a name inherited from
  \<open>Object.prototype\<close> and no \<open>NaN\<close> under a gene: a number under a gene is clamped
  into the range of the gene, everything else is dropped. (The numbers of an object
  are real numbers or \<open>NaN\<close> here, as everywhere in this theory.)
\<close>

lemma deserialise_in_range:
  "values_in_range (DNA_deserialise None)"
  "clampable obj \<Longrightarrow> values_in_range (DNA_deserialise (Some obj))"
proof -
  show "values_in_range (DNA_deserialise None)"
    by (simp add: DNA_deserialise_def DNA_empty_def values_in_range_def)
next
  assume "clampable obj"
  then have "clampable (Object_entries obj)" by (rule Object_entries_clampable)
  moreover have "values_in_range []" by (simp add: values_in_range_def)
  ultimately have "values_in_range (deserialise_entries (Object_entries obj) [])"
    by (rule deserialise_entries_in_range)
  then show "values_in_range (DNA_deserialise (Some obj))"
    by (simp add: DNA_deserialise_def)
qed

lemma deserialise_in_range_example:
  "clampable [(''speed'', JNumber (Num 9)), (''zzz'', JNumber NaN), (''x'', JOther)]
   \<and> DNA_deserialise (Some [(''speed'', JNumber (Num 9)), (''zzz'', JNumber NaN), (''x'', JOther)])
      = [(''speed'', Num 1.5)]"
  by (simp add: clampable_def DNA_deserialise_def Object_entries_def is_array_index_def
      GENE_DEFS_at_def GENE_DEFS_def Object_prototype_keys_def falsy_def def_min_def
      def_max_def Let_def)

text \<open>
  Claim C5 says that every value that \<open>deserialise\<close> stores lies in the range of its
  gene, for any input object; the comment of the registry says the same ("values
  clamped on deserialise"). The code does not do that for a key that \<open>GENE_DEFS\<close>
  inherits from \<open>Object.prototype\<close>. For the object \<open>{"speed": 9, "toString": 5}\<close>
  the value of \<open>speed\<close> is clamped to 1.5, but \<open>GENE_DEFS["toString"]\<close> is a function,
  its \<open>min\<close> and \<open>max\<close> are \<open>undefined\<close>, and \<open>toString \<mapsto> NaN\<close> is stored, a value
  that lies in no range.
\<close>

theorem deserialise_stores_value_out_of_range:
  "DNA_deserialise (Some [(''speed'', JNumber (Num 9)), (''toString'', JNumber (Num 5))])
     = [(''speed'', Num 1.5), (''toString'', NaN)]
   \<and> value_in_range (''speed'', Num 1.5)
   \<and> \<not> value_in_range (''toString'', NaN)
   \<and> \<not> values_in_range
         (DNA_deserialise (Some [(''speed'', JNumber (Num 9)), (''toString'', JNumber (Num 5))]))"
  by (simp add: DNA_deserialise_def Object_entries_def is_array_index_def GENE_DEFS_at_def
      GENE_DEFS_def Object_prototype_keys_def falsy_def def_min_def def_max_def Let_def
      values_in_range_def value_in_range_def)

text \<open>
  The clamp also lets \<open>NaN\<close> through: \<open>typeof NaN\<close> is \<open>number\<close>, and
  \<open>Math.max(min, Math.min(max, NaN))\<close> is \<open>NaN\<close>. An object read from JSON holds no
  \<open>NaN\<close>; a direct call with one stores it under the gene.
\<close>

lemma deserialise_stores_NaN:
  "DNA_deserialise (Some [(''speed'', JNumber NaN)]) = [(''speed'', NaN)]
   \<and> \<not> values_in_range (DNA_deserialise (Some [(''speed'', JNumber NaN)]))"
  by (simp add: DNA_deserialise_def Object_entries_def is_array_index_def GENE_DEFS_at_def
      GENE_DEFS_def falsy_def def_min_def def_max_def Let_def values_in_range_def
      value_in_range_def)

subsection \<open>serialise and deserialise\<close>

text \<open>A trait-set as the data model describes it: the keys are distinct genes of the
  registry and every value is a number in the range of its gene.\<close>

definition registry_genes_in_range :: "dna \<Rightarrow> bool" where
  "registry_genes_in_range genes =
     (distinct (map fst genes)
      \<and> list_all (\<lambda>(k, v). case map_of GENE_DEFS k of
                                None \<Rightarrow> False
                              | Some d \<Rightarrow> Num (gene_min d) \<le> v \<and> v \<le> Num (gene_max d)) genes)"

text \<open>
  On such a trait-set \<open>deserialise\<close> undoes \<open>serialise\<close>
  (\<open>serialise_deserialise_roundtrip\<close>), and a key that is neither a gene nor a name
  inherited from \<open>Object.prototype\<close> is dropped (\<open>deserialise_drops_other_names\<close>).
  That the values stored under genes of the registry are clamped into their ranges
  is shown above.
\<close>

lemma Map_set_keys: "fst ` set (Map_set k v m) = insert k (fst ` set m)"
proof (induction m)
  case Nil
  show ?case by simp
next
  case (Cons p m)
  obtain k' v' where p: "p = (k', v')" by (cases p)
  show ?case
  proof (cases "k' = k")
    case True
    with p show ?thesis by simp
  next
    case False
    with p Cons.IH show ?thesis by (simp add: insert_commute)
  qed
qed

lemma Map_set_new: "k \<notin> fst ` set m \<Longrightarrow> Map_set k v m = m @ [(k, v)]"
  by (induction m) auto

lemma fold_Map_set_distinct:
  "distinct (map fst (acc @ es)) \<Longrightarrow> fold (\<lambda>(k, v) obj. Map_set k v obj) es acc = acc @ es"
proof (induction es arbitrary: acc)
  case Nil
  show ?case by simp
next
  case (Cons e es)
  obtain k v where e: "e = (k, v)" by (cases e)
  from Cons.prems e have new: "k \<notin> fst ` set acc" by auto
  from Cons.prems e have "distinct (map fst ((acc @ [(k, v)]) @ es))" by simp
  then have "fold (\<lambda>(k, v) obj. Map_set k v obj) es (acc @ [(k, v)]) = (acc @ [(k, v)]) @ es"
    by (rule Cons.IH)
  with new e show ?case by (simp add: Map_set_new)
qed

lemma registry_key_not_index: "(k, d) \<in> set GENE_DEFS \<Longrightarrow> \<not> is_array_index k"
  by (auto simp: GENE_DEFS_def is_array_index_def)

lemma Object_entries_no_index:
  assumes "\<forall>(k, v) \<in> set obj. \<not> is_array_index k"
  shows "Object_entries obj = obj"
proof -
  from assms have "filter (\<lambda>(k, v). is_array_index k) obj = []"
    by (auto simp: filter_empty_conv)
  moreover from assms have "filter (\<lambda>(k, v). \<not> is_array_index k) obj = obj"
    by (auto simp: filter_id_conv)
  ultimately show ?thesis by (simp add: Object_entries_def)
qed

lemma deserialise_entries_identity:
  assumes "distinct (map fst (acc @ es))"
    and "list_all (\<lambda>(k, v). case map_of GENE_DEFS k of
                                None \<Rightarrow> False
                              | Some d \<Rightarrow> Num (gene_min d) \<le> v \<and> v \<le> Num (gene_max d)) es"
  shows "deserialise_entries (map (\<lambda>(k, v). (k, JNumber v)) es) acc = acc @ es"
  using assms
proof (induction es arbitrary: acc)
  case Nil
  show ?case by simp
next
  case (Cons e es)
  obtain k v where e: "e = (k, v)" by (cases e)
  from Cons.prems(2) e obtain d where d: "map_of GENE_DEFS k = Some d"
    and lo: "Num (gene_min d) \<le> v" and hi: "v \<le> Num (gene_max d)"
    by (auto split: option.splits)
  from lo obtain r where r: "v = Num r" by (cases v) simp_all
  from d have g: "GENE_DEFS_at k = Gene d" by (simp add: GENE_DEFS_at_def)
  from lo hi r have clamp: "Math_max (Num (gene_min d)) (Math_min (Num (gene_max d)) v) = v"
    by (simp add: max_def min_def)
  from Cons.prems(1) e have new: "k \<notin> fst ` set acc" by auto
  from Cons.prems(1) e have dist: "distinct (map fst ((acc @ [(k, v)]) @ es))" by simp
  from Cons.prems(2) e have rest: "list_all (\<lambda>(k, v). case map_of GENE_DEFS k of
                                None \<Rightarrow> False
                              | Some d \<Rightarrow> Num (gene_min d) \<le> v \<and> v \<le> Num (gene_max d)) es"
    by simp
  have "deserialise_entries (map (\<lambda>(k, v). (k, JNumber v)) es) (acc @ [(k, v)])
      = (acc @ [(k, v)]) @ es"
    using dist rest by (rule Cons.IH)
  with e g clamp new show ?case
    by (simp add: Let_def falsy_def def_min_def def_max_def Map_set_new)
qed

lemma serialise_deserialise_roundtrip:
  assumes "registry_genes_in_range genes"
  shows "DNA_deserialise (Some (DNA_serialise genes)) = genes"
proof -
  let ?obj = "map (\<lambda>(k, v). (k, JNumber v)) genes"
  from assms have dist: "distinct (map fst genes)"
    and ok: "list_all (\<lambda>(k, v). case map_of GENE_DEFS k of
                                None \<Rightarrow> False
                              | Some d \<Rightarrow> Num (gene_min d) \<le> v \<and> v \<le> Num (gene_max d)) genes"
    by (simp_all add: registry_genes_in_range_def)
  have keys: "fst \<circ> (\<lambda>(k, v). (k, JNumber v)) = (fst :: string \<times> jsnum \<Rightarrow> string)"
    by (auto simp: fun_eq_iff)
  with dist have "distinct (map fst ([] @ ?obj))" by simp
  then have ser: "DNA_serialise genes = ?obj"
    unfolding DNA_serialise_def Object_fromEntries_def
    using fold_Map_set_distinct [of "[]" ?obj] by simp
  have "\<forall>(k, v) \<in> set ?obj. \<not> is_array_index k"
  proof (clarify)
    fix k v
    assume "(k, v) \<in> set ?obj" and idx: "is_array_index k"
    then obtain u where "(k, u) \<in> set genes" by auto
    with ok obtain d where "map_of GENE_DEFS k = Some d"
      by (auto simp: list_all_iff split: option.splits)
    then have "(k, d) \<in> set GENE_DEFS" by (rule map_of_SomeD)
    with idx show False by (simp add: registry_key_not_index)
  qed
  then have ent: "Object_entries ?obj = ?obj" by (rule Object_entries_no_index)
  from dist have "distinct (map fst ([] @ genes))" by simp
  then have "deserialise_entries ?obj [] = [] @ genes"
    using ok by (rule deserialise_entries_identity)
  then show ?thesis
    by (simp add: DNA_deserialise_def ser ent)
qed

lemma deserialise_entries_keys:
  "fst ` set (deserialise_entries es g)
     \<subseteq> fst ` set g \<union> {k \<in> fst ` set es. \<not> falsy (GENE_DEFS_at k)}"
proof (induction es arbitrary: g)
  case Nil
  show ?case by simp
next
  case (Cons e es)
  obtain k v where e: "e = (k, v)" by (cases e)
  show ?case
  proof (cases "\<exists>n. v = JNumber n \<and> \<not> falsy (GENE_DEFS_at k)")
    case True
    then obtain n where n: "v = JNumber n" and nf: "\<not> falsy (GENE_DEFS_at k)" by blast
    from Cons.IH [of "Map_set k (Math_max (def_min (GENE_DEFS_at k))
        (Math_min (def_max (GENE_DEFS_at k)) n)) g"] e n nf
    show ?thesis by (auto simp: Let_def Map_set_keys)
  next
    case False
    with Cons.IH [of g] e show ?thesis
      by (cases v) (auto simp: Let_def)
  qed
qed

lemma deserialise_drops_other_names:
  assumes "key \<notin> set (map fst GENE_DEFS)" and "key \<notin> set Object_prototype_keys"
  shows "\<not> DNA_has (DNA_deserialise obj) key"
proof (cases obj)
  case None
  then show ?thesis by (simp add: DNA_deserialise_def DNA_empty_def DNA_has_def Map_has_def)
next
  case (Some ob)
  from assms have "map_of GENE_DEFS key = None"
    by (simp add: map_of_eq_None_iff)
  with assms(2) have "falsy (GENE_DEFS_at key)"
    by (simp add: GENE_DEFS_at_def falsy_def)
  with deserialise_entries_keys [of "Object_entries ob" "[]"] Some show ?thesis
    by (auto simp: DNA_deserialise_def DNA_has_def Map_has_def)
qed

text \<open>
  Claim C6 says that \<open>deserialise\<close> drops unknown gene names, and so does the comment
  of the function. The test \<open>!def\<close> does not do that for the names that \<open>GENE_DEFS\<close>
  inherits from \<open>Object.prototype\<close>: for the object \<open>{"toString": 5}\<close> the lookup
  \<open>GENE_DEFS["toString"]\<close> is a function, its \<open>min\<close> and \<open>max\<close> are \<open>undefined\<close>, and
  the entry \<open>toString \<mapsto> NaN\<close> is stored in the trait-set.
\<close>

theorem deserialise_keeps_inherited_name:
  "''toString'' \<notin> set (map fst GENE_DEFS)
   \<and> DNA_deserialise (Some [(''toString'', JNumber (Num 5))]) = [(''toString'', NaN)]
   \<and> DNA_has (DNA_deserialise (Some [(''toString'', JNumber (Num 5))])) ''toString''"
  by (simp add: DNA_deserialise_def Object_entries_def is_array_index_def GENE_DEFS_at_def
      GENE_DEFS_def Object_prototype_keys_def falsy_def def_min_def def_max_def Let_def
      DNA_has_def Map_has_def)

section \<open>Properties of the entity\<close>

subsection \<open>Sample states\<close>

text \<open>A mounted, live cell with no active gene, at a given position and velocity, and
  two windows.\<close>

definition sample_cell :: "real \<Rightarrow> real \<Rightarrow> real \<Rightarrow> real \<Rightarrow> entity" where
  "sample_cell px py pvx pvy =
     \<lparr>e_x = Num px, e_y = Num py, e_vx = Num pvx, e_vy = Num pvy, rotation = Num 0,
      entityKey = ''cell'', name = ''cell'', alive = True, dna = [],
      divisionTimer = Num 100, el = True, bodyEl = True, infected = False, dying = False,
      hitCount = 0\<rparr>"

definition sample_window :: window where
  "sample_window = \<lparr>innerWidth = 800, innerHeight = 600\<rparr>"

lemma sample_cell_fields [simp]:
  "e_x (sample_cell px py pvx pvy) = Num px" "e_y (sample_cell px py pvx pvy) = Num py"
  "e_vx (sample_cell px py pvx pvy) = Num pvx" "e_vy (sample_cell px py pvx pvy) = Num pvy"
  "el (sample_cell px py pvx pvy)" "alive (sample_cell px py pvx pvy)"
  "\<not> dying (sample_cell px py pvx pvy)" "bodyEl (sample_cell px py pvx pvy)"
  "dna (sample_cell px py pvx pvy) = []" "entityKey (sample_cell px py pvx pvy) = ''cell''"
  by (simp_all add: sample_cell_def)

lemma geneMult_sample_cell [simp]: "geneMult (sample_cell px py pvx pvy) = Num 1"
  by (simp add: geneMult_def DNA_get_def GENE_DEFS_at_def GENE_DEFS_def)

definition narrow_window :: window where
  "narrow_window = \<lparr>innerWidth = 10, innerHeight = 600\<rparr>"

subsection \<open>Edge bounce\<close>

lemma abs_abs_jsnum [simp]: "\<bar>\<bar>a :: jsnum\<bar>\<bar> = \<bar>a\<bar>"
  by (cases a) simp_all

lemma abs_jsnum_not_negative: "\<not> \<bar>a :: jsnum\<bar> < Num 0"
  by (cases a) simp_all

lemma neg_abs_jsnum_not_positive: "\<not> Num 0 < - \<bar>a :: jsnum\<bar>"
  by (cases a) simp_all

lemma drift_kick_position:
  "e_x (fst (drift_kick e rs)) = e_x e" "e_y (fst (drift_kick e rs)) = e_y e"
  by (simp_all add: drift_kick_def Let_def)

lemma drift_kick_no_roll:
  "\<not> Math_random rs < DRIFT_CHANCE \<Longrightarrow> drift_kick e rs = (e, stl rs)"
  by (simp add: drift_kick_def)

lemma bounce_edges_left:
  assumes "e_x e - ICON_HALF \<le> Num 0" and "24 < innerWidth w"
  shows "e_x (bounce_edges e w) = ICON_HALF" and "e_vx (bounce_edges e w) = \<bar>e_vx e\<bar>"
  using assms by (simp_all add: bounce_edges_def Let_def ICON_HALF_def)

lemma bounce_edges_right:
  assumes "e_x e + ICON_HALF \<ge> Num (innerWidth w)"
  shows "e_x (bounce_edges e w) = Num (innerWidth w) - ICON_HALF"
    and "e_vx (bounce_edges e w) = - \<bar>e_vx e\<bar>"
proof -
  from assms obtain r where r: "e_x e = Num r" and le: "innerWidth w \<le> r + 12"
    by (cases "e_x e") (simp_all add: ICON_HALF_def)
  from r le show "e_x (bounce_edges e w) = Num (innerWidth w) - ICON_HALF"
    and "e_vx (bounce_edges e w) = - \<bar>e_vx e\<bar>"
    by (auto simp: bounce_edges_def Let_def ICON_HALF_def)
qed

lemma bounce_edges_top:
  assumes "e_y e - ICON_HALF \<le> Num 0" and "24 < innerHeight w"
  shows "e_y (bounce_edges e w) = ICON_HALF" and "e_vy (bounce_edges e w) = \<bar>e_vy e\<bar>"
  using assms by (simp_all add: bounce_edges_def Let_def ICON_HALF_def)

lemma bounce_edges_bottom:
  assumes "e_y e + ICON_HALF \<ge> Num (innerHeight w)"
  shows "e_y (bounce_edges e w) = Num (innerHeight w) - ICON_HALF"
    and "e_vy (bounce_edges e w) = - \<bar>e_vy e\<bar>"
proof -
  from assms obtain r where r: "e_y e = Num r" and le: "innerHeight w \<le> r + 12"
    by (cases "e_y e") (simp_all add: ICON_HALF_def)
  from r le show "e_y (bounce_edges e w) = Num (innerHeight w) - ICON_HALF"
    and "e_vy (bounce_edges e w) = - \<bar>e_vy e\<bar>"
    by (auto simp: bounce_edges_def Let_def ICON_HALF_def)
qed

definition after_move :: "entity \<Rightarrow> jsnum \<Rightarrow> entity" where
  "after_move e m =
     (if entityKey e = ''cell'' \<and> divisionTimer e > Num 0
      then e\<lparr>divisionTimer := divisionTimer e - Num 1\<rparr> else e)
     \<lparr>e_x := moved_x e m, e_y := moved_y e m\<rparr>"

lemma Entity_update_live:
  assumes "el e" and "alive e" and "\<not> dying e"
  shows "Entity_update e m w rs = drift_kick (bounce_edges (after_move e m) w) rs"
  using assms
  by (simp add: Entity_update_def after_move_def Let_def moved_x_def moved_y_def geneMult_def)

lemma after_move_fields [simp]:
  "e_x (after_move e m) = moved_x e m" "e_y (after_move e m) = moved_y e m"
  "e_vx (after_move e m) = e_vx e" "e_vy (after_move e m) = e_vy e"
  by (simp_all add: after_move_def)

lemma sqrt_of_square: "0 \<le> r \<Longrightarrow> r * r = s \<Longrightarrow> sqrt s = r"
  by (rule real_sqrt_unique) (simp_all add: power2_eq_square)

text \<open>
  Claim C1, as the code has it. For an entity that is mounted, alive and not dying, one
  call of \<open>update\<close> puts the position exactly on the boundary that the movement step
  reached or crossed, whatever the depth: \<open>x = viewportWidth - ICON_HALF\<close> at the right
  edge, \<open>x = ICON_HALF\<close> at the left edge of a viewport wider than \<open>2 * ICON_HALF\<close>
  (in a narrower one the test of the right edge fires after it and wins), and the same
  for \<open>y\<close>. When the drift roll of that call is not below \<open>DRIFT_CHANCE\<close>, the velocity
  component is \<open>|v|\<close> at the left and top edge and \<open>-|v|\<close> at the right and bottom edge,
  so it does not point out of the viewport. When the roll succeeds, the kick is added
  after the bounce and can reverse that sign.
\<close>

theorem update_edge_bounce:
  assumes "el e" and "alive e" and "\<not> dying e"
  shows "(moved_x e m - ICON_HALF \<le> Num 0 \<and> 24 < innerWidth w \<longrightarrow>
            e_x (fst (Entity_update e m w rs)) = ICON_HALF
            \<and> (\<not> Math_random rs < DRIFT_CHANCE \<longrightarrow>
                 e_vx (fst (Entity_update e m w rs)) = \<bar>e_vx e\<bar>
                 \<and> \<not> e_vx (fst (Entity_update e m w rs)) < Num 0))
       \<and> (moved_x e m + ICON_HALF \<ge> Num (innerWidth w) \<longrightarrow>
            e_x (fst (Entity_update e m w rs)) = Num (innerWidth w) - ICON_HALF
            \<and> (\<not> Math_random rs < DRIFT_CHANCE \<longrightarrow>
                 e_vx (fst (Entity_update e m w rs)) = - \<bar>e_vx e\<bar>
                 \<and> \<not> Num 0 < e_vx (fst (Entity_update e m w rs))))
       \<and> (moved_y e m - ICON_HALF \<le> Num 0 \<and> 24 < innerHeight w \<longrightarrow>
            e_y (fst (Entity_update e m w rs)) = ICON_HALF
            \<and> (\<not> Math_random rs < DRIFT_CHANCE \<longrightarrow>
                 e_vy (fst (Entity_update e m w rs)) = \<bar>e_vy e\<bar>
                 \<and> \<not> e_vy (fst (Entity_update e m w rs)) < Num 0))
       \<and> (moved_y e m + ICON_HALF \<ge> Num (innerHeight w) \<longrightarrow>
            e_y (fst (Entity_update e m w rs)) = Num (innerHeight w) - ICON_HALF
            \<and> (\<not> Math_random rs < DRIFT_CHANCE \<longrightarrow>
                 e_vy (fst (Entity_update e m w rs)) = - \<bar>e_vy e\<bar>
                 \<and> \<not> Num 0 < e_vy (fst (Entity_update e m w rs))))"
proof -
  let ?b = "bounce_edges (after_move e m) w"
  have upd: "Entity_update e m w rs = drift_kick ?b rs"
    using assms by (rule Entity_update_live)
  have left: "e_x (fst (Entity_update e m w rs)) = ICON_HALF
      \<and> (\<not> Math_random rs < DRIFT_CHANCE \<longrightarrow>
            e_vx (fst (Entity_update e m w rs)) = \<bar>e_vx e\<bar>
            \<and> \<not> e_vx (fst (Entity_update e m w rs)) < Num 0)"
    if "moved_x e m - ICON_HALF \<le> Num 0" and "24 < innerWidth w"
  proof -
    from that have "e_x ?b = ICON_HALF" and "e_vx ?b = \<bar>e_vx e\<bar>"
      using bounce_edges_left [of "after_move e m" w] by simp_all
    then show ?thesis
      by (simp add: upd drift_kick_position drift_kick_no_roll abs_jsnum_not_negative)
  qed
  have right: "e_x (fst (Entity_update e m w rs)) = Num (innerWidth w) - ICON_HALF
      \<and> (\<not> Math_random rs < DRIFT_CHANCE \<longrightarrow>
            e_vx (fst (Entity_update e m w rs)) = - \<bar>e_vx e\<bar>
            \<and> \<not> Num 0 < e_vx (fst (Entity_update e m w rs)))"
    if "moved_x e m + ICON_HALF \<ge> Num (innerWidth w)"
  proof -
    from that have "e_x ?b = Num (innerWidth w) - ICON_HALF" and "e_vx ?b = - \<bar>e_vx e\<bar>"
      using bounce_edges_right [of w "after_move e m"] by simp_all
    then show ?thesis
      by (simp add: upd drift_kick_position drift_kick_no_roll neg_abs_jsnum_not_positive)
  qed
  have top: "e_y (fst (Entity_update e m w rs)) = ICON_HALF
      \<and> (\<not> Math_random rs < DRIFT_CHANCE \<longrightarrow>
            e_vy (fst (Entity_update e m w rs)) = \<bar>e_vy e\<bar>
            \<and> \<not> e_vy (fst (Entity_update e m w rs)) < Num 0)"
    if "moved_y e m - ICON_HALF \<le> Num 0" and "24 < innerHeight w"
  proof -
    from that have "e_y ?b = ICON_HALF" and "e_vy ?b = \<bar>e_vy e\<bar>"
      using bounce_edges_top [of "after_move e m" w] by simp_all
    then show ?thesis
      by (simp add: upd drift_kick_position drift_kick_no_roll abs_jsnum_not_negative)
  qed
  have bottom: "e_y (fst (Entity_update e m w rs)) = Num (innerHeight w) - ICON_HALF
      \<and> (\<not> Math_random rs < DRIFT_CHANCE \<longrightarrow>
            e_vy (fst (Entity_update e m w rs)) = - \<bar>e_vy e\<bar>
            \<and> \<not> Num 0 < e_vy (fst (Entity_update e m w rs)))"
    if "moved_y e m + ICON_HALF \<ge> Num (innerHeight w)"
  proof -
    from that have "e_y ?b = Num (innerHeight w) - ICON_HALF" and "e_vy ?b = - \<bar>e_vy e\<bar>"
      using bounce_edges_bottom [of w "after_move e m"] by simp_all
    then show ?thesis
      by (simp add: upd drift_kick_position drift_kick_no_roll neg_abs_jsnum_not_positive)
  qed
  from left right top bottom show ?thesis by blast
qed

theorem update_edge_bounce_witness:
  "moved_x (sample_cell 12.05 12.05 (- 0.1) (- 0.1)) (Num 1) - ICON_HALF \<le> Num 0
   \<and> moved_y (sample_cell 12.05 12.05 (- 0.1) (- 0.1)) (Num 1) - ICON_HALF \<le> Num 0
   \<and> 24 < innerWidth sample_window \<and> 24 < innerHeight sample_window
   \<and> \<not> Math_random (sconst (Random (1 / 2))) < DRIFT_CHANCE
   \<and> e_x (fst (Entity_update (sample_cell 12.05 12.05 (- 0.1) (- 0.1)) (Num 1) sample_window
         (sconst (Random (1 / 2))))) = Num 12
   \<and> e_vx (fst (Entity_update (sample_cell 12.05 12.05 (- 0.1) (- 0.1)) (Num 1) sample_window
         (sconst (Random (1 / 2))))) = Num 0.1
   \<and> e_y (fst (Entity_update (sample_cell 12.05 12.05 (- 0.1) (- 0.1)) (Num 1) sample_window
         (sconst (Random (1 / 2))))) = Num 12
   \<and> e_vy (fst (Entity_update (sample_cell 12.05 12.05 (- 0.1) (- 0.1)) (Num 1) sample_window
         (sconst (Random (1 / 2))))) = Num 0.1
   \<and> moved_x (sample_cell 799 599 0.5 0.5) (Num 1) + ICON_HALF \<ge> Num (innerWidth sample_window)
   \<and> moved_y (sample_cell 799 599 0.5 0.5) (Num 1) + ICON_HALF \<ge> Num (innerHeight sample_window)
   \<and> e_x (fst (Entity_update (sample_cell 799 599 0.5 0.5) (Num 1) sample_window
         (sconst (Random (1 / 2))))) = Num 788
   \<and> e_vx (fst (Entity_update (sample_cell 799 599 0.5 0.5) (Num 1) sample_window
         (sconst (Random (1 / 2))))) = Num (- 0.5)
   \<and> e_y (fst (Entity_update (sample_cell 799 599 0.5 0.5) (Num 1) sample_window
         (sconst (Random (1 / 2))))) = Num 588
   \<and> e_vy (fst (Entity_update (sample_cell 799 599 0.5 0.5) (Num 1) sample_window
         (sconst (Random (1 / 2))))) = Num (- 0.5)"
proof -
  let ?a = "sample_cell 12.05 12.05 (- 0.1) (- 0.1)"
  let ?b = "sample_cell 799 599 0.5 0.5"
  let ?rs = "sconst (Random (1 / 2))"
  have lx: "moved_x ?a (Num 1) - ICON_HALF \<le> Num 0"
    and ly: "moved_y ?a (Num 1) - ICON_HALF \<le> Num 0"
    by (simp_all add: moved_x_def moved_y_def ICON_HALF_def)
  have rx: "moved_x ?b (Num 1) + ICON_HALF \<ge> Num (innerWidth sample_window)"
    and ry: "moved_y ?b (Num 1) + ICON_HALF \<ge> Num (innerHeight sample_window)"
    by (simp_all add: moved_x_def moved_y_def ICON_HALF_def sample_window_def)
  have wd: "24 < innerWidth sample_window" "24 < innerHeight sample_window"
    by (simp_all add: sample_window_def)
  have nd: "\<not> Math_random ?rs < DRIFT_CHANCE"
    by (simp add: Math_random_def DRIFT_CHANCE_def)
  have A: "el ?a" "alive ?a" "\<not> dying ?a" and B: "el ?b" "alive ?b" "\<not> dying ?b"
    by simp_all
  from update_edge_bounce [OF A, of "Num 1" sample_window ?rs] lx ly wd nd
  have "e_x (fst (Entity_update ?a (Num 1) sample_window ?rs)) = ICON_HALF"
    and "e_vx (fst (Entity_update ?a (Num 1) sample_window ?rs)) = \<bar>e_vx ?a\<bar>"
    and "e_y (fst (Entity_update ?a (Num 1) sample_window ?rs)) = ICON_HALF"
    and "e_vy (fst (Entity_update ?a (Num 1) sample_window ?rs)) = \<bar>e_vy ?a\<bar>"
    by blast+
  moreover
  from update_edge_bounce [OF B, of "Num 1" sample_window ?rs] rx ry nd
  have "e_x (fst (Entity_update ?b (Num 1) sample_window ?rs)) = Num (innerWidth sample_window) - ICON_HALF"
    and "e_vx (fst (Entity_update ?b (Num 1) sample_window ?rs)) = - \<bar>e_vx ?b\<bar>"
    and "e_y (fst (Entity_update ?b (Num 1) sample_window ?rs)) = Num (innerHeight sample_window) - ICON_HALF"
    and "e_vy (fst (Entity_update ?b (Num 1) sample_window ?rs)) = - \<bar>e_vy ?b\<bar>"
    by blast+
  ultimately show ?thesis
    using lx ly rx ry wd nd by (simp add: ICON_HALF_def sample_window_def)
qed

text \<open>
  The claim without the condition on the drift roll is false: a cell that crosses the
  left edge with \<open>vx = -0.1\<close> is put on the edge with \<open>vx = 0.1\<close>, and a kick of
  \<open>(0 - 0.5) * DRIFT_MAGNITUDE = -0.125\<close> in the same call leaves \<open>vx = -0.025\<close>,
  pointing out of the viewport.
\<close>

theorem update_drift_reverses_bounce:
  "el (sample_cell 12.05 100 (- 0.1) 0) \<and> alive (sample_cell 12.05 100 (- 0.1) 0)
   \<and> \<not> dying (sample_cell 12.05 100 (- 0.1) 0)
   \<and> moved_x (sample_cell 12.05 100 (- 0.1) 0) (Num 1) - ICON_HALF \<le> Num 0
   \<and> e_x (fst (Entity_update (sample_cell 12.05 100 (- 0.1) 0) (Num 1) sample_window
         (Random 0 ## Random 0 ## sconst (Random (1 / 2))))) = ICON_HALF
   \<and> e_vx (fst (Entity_update (sample_cell 12.05 100 (- 0.1) 0) (Num 1) sample_window
         (Random 0 ## Random 0 ## sconst (Random (1 / 2))))) = Num (- 0.025)"
proof -
  have s: "sqrt (1 / 1600) = 1 / 40"
    by (rule sqrt_of_square) simp_all
  show ?thesis
    by (simp add: Entity_update_def moved_x_def moved_y_def bounce_edges_def drift_kick_def
        Let_def Math_random_def ICON_HALF_def DRIFT_CHANCE_def DRIFT_MAGNITUDE_def
        BASE_SPEED_def MAX_SPEED_FACTOR_def sample_window_def sample_cell_def geneMult_def
        DNA_get_def GENE_DEFS_at_def GENE_DEFS_def s)
qed

subsection \<open>The offspring of a division\<close>

lemma unit_vector_scaled: "sqrt ((cos a * k)\<^sup>2 + (sin a * k)\<^sup>2) = \<bar>k\<bar>"
proof -
  have "(cos a * k)\<^sup>2 + (sin a * k)\<^sup>2 = k\<^sup>2 * (cos a)\<^sup>2 + k\<^sup>2 * (sin a)\<^sup>2"
    by (simp add: power_mult_distrib mult.commute)
  also have "\<dots> = k\<^sup>2 * ((cos a)\<^sup>2 + (sin a)\<^sup>2)"
    by (simp only: distrib_left)
  also have "\<dots> = k\<^sup>2" by simp
  finally show ?thesis by simp
qed

lemma hypot_of_direction:
  "Math_hypot (Math_cos (Num t) * Num k) (Math_sin (Num t) * Num k) = Num \<bar>k\<bar>"
  by (simp add: unit_vector_scaled)

lemma Entity_divide_fields:
  "c_x (fst (Entity_divide e w rs)) =
     Math_max ICON_HALF (Math_min (Num (innerWidth w) - ICON_HALF)
       (e_x e + Math_cos (Math_random rs * Math_PI * Num 2) * (COLLISION_DIAMETER * Num 0.65)))"
  "c_y (fst (Entity_divide e w rs)) =
     Math_max ICON_HALF (Math_min (Num (innerHeight w) - ICON_HALF)
       (e_y e + Math_sin (Math_random rs * Math_PI * Num 2) * (COLLISION_DIAMETER * Num 0.65)))"
  "c_vx (fst (Entity_divide e w rs)) = Math_cos (Math_random rs * Math_PI * Num 2) * BASE_SPEED"
  "c_vy (fst (Entity_divide e w rs)) = Math_sin (Math_random rs * Math_PI * Num 2) * BASE_SPEED"
  "c_dna (fst (Entity_divide e w rs)) = fst (DNA_reproduce (dna e) MUTATION_RATE ''cell'' (stl rs))"
  "snd (Entity_divide e w rs) = snd (DNA_reproduce (dna e) MUTATION_RATE ''cell'' (stl rs))"
  by (simp_all add: Entity_divide_def Let_def split_def)

text \<open>
  Claim C10, as the code has it. The offspring that \<open>divide\<close> describes for a parent
  at a numeric position has \<open>x \<ge> ICON_HALF\<close> and \<open>y \<ge> ICON_HALF\<close>, whatever the random
  angle; it has \<open>x \<le> viewportWidth - ICON_HALF\<close> when the viewport is at least
  \<open>2 * ICON_HALF = 24\<close> wide and \<open>y \<le> viewportHeight - ICON_HALF\<close> when it is at least
  24 high. Its launch velocity has magnitude \<open>BASE_SPEED\<close>.
\<close>

theorem divide_offspring_in_viewport:
  assumes "e_x e = Num px" and "e_y e = Num py"
  shows "ICON_HALF \<le> c_x (fst (Entity_divide e w rs))
       \<and> (24 \<le> innerWidth w \<longrightarrow>
            c_x (fst (Entity_divide e w rs)) \<le> Num (innerWidth w) - ICON_HALF)
       \<and> ICON_HALF \<le> c_y (fst (Entity_divide e w rs))
       \<and> (24 \<le> innerHeight w \<longrightarrow>
            c_y (fst (Entity_divide e w rs)) \<le> Num (innerHeight w) - ICON_HALF)
       \<and> Math_hypot (c_vx (fst (Entity_divide e w rs))) (c_vy (fst (Entity_divide e w rs)))
           = BASE_SPEED"
proof -
  have speed: "Math_hypot (c_vx (fst (Entity_divide e w rs))) (c_vy (fst (Entity_divide e w rs)))
      = BASE_SPEED"
  proof -
    have angle: "Math_random rs * Math_PI * Num 2 = Num (random_val (shd rs) * pi * 2)"
      by (simp add: Math_random_def Math_PI_def)
    have "Math_hypot (Math_cos (Num (random_val (shd rs) * pi * 2)) * Num 0.8)
            (Math_sin (Num (random_val (shd rs) * pi * 2)) * Num 0.8) = Num \<bar>0.8\<bar>"
      by (rule hypot_of_direction)
    then show ?thesis
      unfolding Entity_divide_fields angle BASE_SPEED_def by simp
  qed
  from assms have pos:
    "ICON_HALF \<le> c_x (fst (Entity_divide e w rs))"
    "ICON_HALF \<le> c_y (fst (Entity_divide e w rs))"
    "24 \<le> innerWidth w \<Longrightarrow> c_x (fst (Entity_divide e w rs)) \<le> Num (innerWidth w) - ICON_HALF"
    "24 \<le> innerHeight w \<Longrightarrow> c_y (fst (Entity_divide e w rs)) \<le> Num (innerHeight w) - ICON_HALF"
    by (simp_all add: Entity_divide_fields Math_random_def Math_PI_def ICON_HALF_def
        COLLISION_DIAMETER_def)
  from speed pos show ?thesis by blast
qed

theorem divide_offspring_in_viewport_witness:
  "e_x (sample_cell 795 5 0 0) = Num 795 \<and> e_y (sample_cell 795 5 0 0) = Num 5
   \<and> 24 \<le> innerWidth sample_window \<and> 24 \<le> innerHeight sample_window
   \<and> c_x (fst (Entity_divide (sample_cell 795 5 0 0) sample_window (sconst (Random 0)))) = Num 788
   \<and> c_y (fst (Entity_divide (sample_cell 795 5 0 0) sample_window (sconst (Random 0)))) = Num 12
   \<and> Math_hypot (c_vx (fst (Entity_divide (sample_cell 795 5 0 0) sample_window (sconst (Random 0)))))
        (c_vy (fst (Entity_divide (sample_cell 795 5 0 0) sample_window (sconst (Random 0)))))
      = Num 0.8"
proof -
  let ?e = "sample_cell 795 5 0 0"
  have a: "e_x ?e = Num 795" and b: "e_y ?e = Num 5" by simp_all
  have w: "24 \<le> innerWidth sample_window" "24 \<le> innerHeight sample_window"
    by (simp_all add: sample_window_def)
  have x: "c_x (fst (Entity_divide ?e sample_window (sconst (Random 0)))) = Num 788"
    and y: "c_y (fst (Entity_divide ?e sample_window (sconst (Random 0)))) = Num 12"
    by (simp_all add: Entity_divide_fields Math_random_def Math_PI_def ICON_HALF_def
        COLLISION_DIAMETER_def sample_window_def)
  from divide_offspring_in_viewport [OF a b, of sample_window "sconst (Random 0)"] a b w x y
  show ?thesis by (simp add: BASE_SPEED_def)
qed

text \<open>
  In a viewport narrower than 24 the interval \<open>[ICON_HALF, viewportWidth - ICON_HALF]\<close>
  is empty and \<open>Math.max(h, Math.min(vw - h, \<dots>))\<close> returns its lower bound: at width
  10 the offspring is at \<open>x = 12\<close>, which is not at most \<open>10 - 12\<close>.
\<close>

theorem divide_offspring_narrow_viewport:
  "c_x (fst (Entity_divide (sample_cell 5 100 0 0) narrow_window (sconst (Random 0)))) = Num 12
   \<and> \<not> c_x (fst (Entity_divide (sample_cell 5 100 0 0) narrow_window (sconst (Random 0))))
          \<le> Num (innerWidth narrow_window) - ICON_HALF"
  by (simp add: Entity_divide_fields Math_random_def Math_PI_def ICON_HALF_def
      COLLISION_DIAMETER_def narrow_window_def)

section \<open>Properties of the engine\<close>

subsection \<open>Sample states\<close>

text \<open>A controller with the default kill chance; a cell at \<open>(100, 100)\<close> with a full
  shield, moving at a given velocity; a virus at \<open>(90, 100)\<close>, moving at a given
  velocity.\<close>

definition sample_controller :: controller where
  "sample_controller = \<lparr>virusKillChance = Num 0.9, iconsData = True, container = True\<rparr>"

definition shielded_cell :: "real \<Rightarrow> real \<Rightarrow> entity" where
  "shielded_cell pvx pvy = (sample_cell 100 100 pvx pvy)\<lparr>dna := [(''shield'', Num 1)]\<rparr>"

definition moving_virus :: "real \<Rightarrow> real \<Rightarrow> entity" where
  "moving_virus pvx pvy = (sample_cell 90 100 pvx pvy)\<lparr>entityKey := ''virus-filled''\<rparr>"

subsection \<open>What each collision step leaves unchanged\<close>

lemma onHit_fields [simp]:
  "e_x (onHit e) = e_x e" "e_y (onHit e) = e_y e" "entityKey (onHit e) = entityKey e"
  by (simp_all add: onHit_def)


lemma die_fields [simp]:
  "e_x (die e) = e_x e" "e_y (die e) = e_y e" "hitCount (die e) = hitCount e"
  by (simp_all add: die_def)

lemma infectWith_fields [simp]:
  "e_x (infectWith e k f g) = e_x e" "e_y (infectWith e k f g) = e_y e"
  "hitCount (infectWith e k f g) = hitCount e"
  by (simp_all add: infectWith_def Let_def split: option.split)

lemma resolveVirusContact_fields [simp]:
  "e_x (fst (resolveVirusContact c v t ang rs)) = e_x t"
  "e_y (fst (resolveVirusContact c v t ang rs)) = e_y t"
  "hitCount (fst (resolveVirusContact c v t ang rs)) = hitCount t"
  by (simp_all add: resolveVirusContact_def Let_def)

lemma elastic_impulse_fields [simp]:
  "e_x (fst (elastic_impulse a b nx ny)) = e_x a" "e_y (fst (elastic_impulse a b nx ny)) = e_y a"
  "e_x (snd (elastic_impulse a b nx ny)) = e_x b" "e_y (snd (elastic_impulse a b nx ny)) = e_y b"
  "hitCount (fst (elastic_impulse a b nx ny)) = hitCount a"
  "hitCount (snd (elastic_impulse a b nx ny)) = hitCount b"
  "entityKey (fst (elastic_impulse a b nx ny)) = entityKey a"
  "entityKey (snd (elastic_impulse a b nx ny)) = entityKey b"
  "alive (fst (elastic_impulse a b nx ny)) = alive a"
  "alive (snd (elastic_impulse a b nx ny)) = alive b"
  "dying (fst (elastic_impulse a b nx ny)) = dying a"
  "dying (snd (elastic_impulse a b nx ny)) = dying b"
  "bodyEl (fst (elastic_impulse a b nx ny)) = bodyEl a"
  "bodyEl (snd (elastic_impulse a b nx ny)) = bodyEl b"
  by (simp_all add: elastic_impulse_def Let_def)

lemma push_apart_fields [simp]:
  "e_x (fst (push_apart a b h nx ny)) = e_x a - h * nx"
  "e_y (fst (push_apart a b h nx ny)) = e_y a - h * ny"
  "e_x (snd (push_apart a b h nx ny)) = e_x b + h * nx"
  "e_y (snd (push_apart a b h nx ny)) = e_y b + h * ny"
  "hitCount (fst (push_apart a b h nx ny)) = hitCount a"
  "hitCount (snd (push_apart a b h nx ny)) = hitCount b"
  "entityKey (fst (push_apart a b h nx ny)) = entityKey a"
  "entityKey (snd (push_apart a b h nx ny)) = entityKey b"
  "alive (fst (push_apart a b h nx ny)) = alive a"
  "alive (snd (push_apart a b h nx ny)) = alive b"
  "dying (fst (push_apart a b h nx ny)) = dying a"
  "dying (snd (push_apart a b h nx ny)) = dying b"
  "bodyEl (fst (push_apart a b h nx ny)) = bodyEl a"
  "bodyEl (snd (push_apart a b h nx ny)) = bodyEl b"
  by (simp_all add: push_apart_def)

lemma hit_feedback_fields [simp]:
  "e_x (fst (hit_feedback a b)) = e_x a" "e_y (fst (hit_feedback a b)) = e_y a"
  "e_x (snd (hit_feedback a b)) = e_x b" "e_y (snd (hit_feedback a b)) = e_y b"
  "entityKey (fst (hit_feedback a b)) = entityKey a"
  "entityKey (snd (hit_feedback a b)) = entityKey b"
  by (simp_all add: hit_feedback_def Let_def)


lemma bug_infection_fields [simp]:
  "e_x (fst (bug_infection a b)) = e_x a" "e_y (fst (bug_infection a b)) = e_y a"
  "e_x (snd (bug_infection a b)) = e_x b" "e_y (snd (bug_infection a b)) = e_y b"
  "hitCount (fst (bug_infection a b)) = hitCount a"
  "hitCount (snd (bug_infection a b)) = hitCount b"
  by (simp_all add: bug_infection_def Let_def)

lemma virus_contact_fields [simp]:
  "e_x (fst (virus_contact c a b nx ny rs)) = e_x a"
  "e_y (fst (virus_contact c a b nx ny rs)) = e_y a"
  "e_x (fst (snd (virus_contact c a b nx ny rs))) = e_x b"
  "e_y (fst (snd (virus_contact c a b nx ny rs))) = e_y b"
  "hitCount (fst (virus_contact c a b nx ny rs)) = hitCount a"
  "hitCount (fst (snd (virus_contact c a b nx ny rs))) = hitCount b"
  by (simp_all add: virus_contact_def Let_def split_def)

subsection \<open>Collision of two entities\<close>



lemma Math_hypot_is_Num:
  assumes "Math_hypot p q = Num d"
  obtains x y where "p = Num x" and "q = Num y"
  using assms by (cases p; cases q) simp_all



lemma checkCollisions_two:
  "checkCollisions c [a, b] rs =
     ([fst (collide_pair c a b rs), fst (snd (collide_pair c a b rs))],
      snd (snd (collide_pair c a b rs)))"
  by (simp add: checkCollisions_def collide_at_def split_def Let_def)



subsection \<open>The shield against a virus\<close>

lemma normalise_zero: "normalise_up (normalise_down (Num 0)) = Num 0"
  by (simp add: normalise_down.simps [of "Num 0"] normalise_up.simps [of "Num 0"] Math_PI_def)

lemma normalise_pi: "normalise_up (normalise_down (Num pi)) = Num pi"
  by (simp add: normalise_down.simps [of "Num pi"] normalise_up.simps [of "Num pi"] Math_PI_def)

text \<open>
  \<open>resolveVirusContact\<close> alone, on the velocity that the target has at the call. A
  target whose shield trait is 1.0 and whose speed \<open>Math.hypot(vx, vy)\<close> exceeds 0.01,
  with an approach angle equal to the angle of that velocity: the method returns
  before the kill roll, the target is unchanged and no random number is drawn.
\<close>

lemma shield_check_blocks_ahead:
  assumes "DNA_get (dna target) ''shield'' = Num 1"
    and "Num 0.01 < Math_hypot (e_vx target) (e_vy target)"
    and "approachAngle = Math_atan2 (e_vy target) (e_vx target)"
  shows "resolveVirusContact c virus target approachAngle rs = (target, rs)"
proof -
  from assms(2) obtain s where s: "Math_hypot (e_vx target) (e_vy target) = Num s"
    by (cases "Math_hypot (e_vx target) (e_vy target)") simp_all
  then obtain u v where u: "e_vx target = Num u" and v: "e_vy target = Num v"
    by (rule Math_hypot_is_Num)
  from assms(3) u v have "approachAngle - Math_atan2 (e_vy target) (e_vx target) = Num 0"
    by simp
  then have "shield_blocks target approachAngle"
    using assms(1,2) by (simp add: shield_blocks_def Let_def normalise_zero Math_PI_def)
  then show ?thesis by (simp add: resolveVirusContact_def)
qed

text \<open>The shield is consulted only above the speed 0.01: at the call, a target with
  shield 1.0 and the velocity \<open>(0.005, 0)\<close> is not shielded from any side.\<close>

lemma shield_check_skipped_when_slow:
  "Math_hypot (e_vx (shielded_cell 0.005 0)) (e_vy (shielded_cell 0.005 0)) = Num 0.005
   \<and> \<not> shield_blocks (shielded_cell 0.005 0) approachAngle"
proof -
  have s: "sqrt (1 / 40000) = 1 / 200"
    by (rule sqrt_of_square) simp_all
  show ?thesis
    by (simp add: shielded_cell_def sample_cell_def shield_blocks_def Let_def s)
qed

text \<open>
  \<open>checkCollisions\<close> resolves the virus contact after the elastic impulse, so the
  velocity that the shield check reads is the one the impulse has left. Take a virus
  \<open>v\<close> and a cell \<open>t\<close> on a horizontal line, the virus on the left, closer than
  \<open>COLLISION_DIAMETER\<close>; the cell moves straight at the virus with speed \<open>s > 0\<close>, and
  the virus moves towards the cell or not at all along that line (\<open>u \<ge> 0\<close>). The
  impulse gives the cell the velocity \<open>(u, 0)\<close>: it stands still or moves away from the
  virus, the shield check fails, and the cell dies exactly when the kill roll is below
  the effective kill chance.
\<close>

lemma shield_faces_away:
  assumes "e_vx t = Num u" "e_vy t = Num 0" "0 \<le> u" "DNA_get (dna t) ''shield'' = Num 1"
  shows "\<not> shield_blocks t (Num pi)"
proof (cases "u = 0")
  case True
  with assms show ?thesis by (simp add: shield_blocks_def Let_def)
next
  case False
  with assms(3) have "0 < u" by simp
  then have "atan2 0 u = 0" by (simp add: atan2_def)
  with assms show ?thesis
    by (simp add: shield_blocks_def Let_def normalise_pi Math_PI_def)
qed

lemma head_on_contact_reaches_kill_roll:
  assumes live: "alive v" "alive t" "\<not> dying v" "\<not> dying t" "bodyEl t"
    and keys: "entityKey v = ''virus-filled''" "entityKey t = ''cell''"
    and icons: "iconsData c"
    and pos: "e_x v = Num xv" "e_x t = Num xt" "e_y v = Num y" "e_y t = Num y"
      "xv < xt" "xt - xv < 24"
    and target: "e_vx t = Num (- s)" "e_vy t = Num 0" "0 < s"
      "DNA_get (dna t) ''shield'' = Num 1"
    and virus: "e_vx v = Num u" "e_vy v = Num w" "0 \<le> u"
  shows "dying (fst (snd (collide_pair c v t rs)))
         \<longleftrightarrow> Math_random rs < Math_min (Num 1)
               (Math_max (Num 0) (virusKillChance c - DNA_get (dna t) ''resistance'')
                + DNA_get (dna v) ''lethality'')"
proof -
  let ?half = "Num ((24 - (xt - xv)) / 2)"
  let ?v1 = "v\<lparr>e_vx := Num (- s), e_vy := Num w\<rparr>"
  let ?t1 = "t\<lparr>e_vx := Num u, e_vy := Num 0\<rparr>"
  have d: "sqrt ((xt - xv)\<^sup>2) = xt - xv"
    using pos(5) by simp
  have imp: "elastic_impulse v t (Num 1) (Num 0) = (?v1, ?t1)"
    using keys target virus by (simp add: elastic_impulse_def Let_def)
  have push: "push_apart ?v1 ?t1 ?half (Num 1) (Num 0)
      = (?v1\<lparr>e_x := Num (xv - (24 - (xt - xv)) / 2), e_y := Num y\<rparr>,
         ?t1\<lparr>e_x := Num (xt + (24 - (xt - xv)) / 2), e_y := Num y\<rparr>)"
    (is "_ = (?v2, ?t2)")
    using pos by (simp add: push_apart_def)
  have hit: "hit_feedback ?v2 ?t2 = (onHit ?v2, onHit ?t2)"
    using keys by (simp add: hit_feedback_def Let_def)
  have t3: "onHit ?t2 = ?t2\<lparr>hitCount := Suc (hitCount t)\<rparr>" (is "_ = ?t3")
    using live by (simp add: onHit_def)
  have bug: "bug_infection (onHit ?v2) ?t3 = (onHit ?v2, ?t3)"
    using keys by (simp add: bug_infection_def Let_def)
  have noshield: "\<not> shield_blocks ?t3 (Num pi)"
    by (rule shield_faces_away [of _ u]) (simp_all add: virus target)
  have ang: "atan2 0 (- 1) = pi"
    by (simp add: atan2_def)
  have contact: "virus_contact c (onHit ?v2) ?t3 (Num 1) (Num 0) rs
      = (onHit ?v2, resolveVirusContact c (onHit ?v2) ?t3 (Num pi) rs)"
    using keys by (simp add: virus_contact_def Let_def ang split_def)
  have roll: "dying (fst (resolveVirusContact c (onHit ?v2) ?t3 (Num pi) rs))
      \<longleftrightarrow> Math_random rs < Math_min (Num 1)
               (Math_max (Num 0) (virusKillChance c - DNA_get (dna t) ''resistance'')
                + DNA_get (dna v) ''lethality'')"
    using noshield live by (simp add: resolveVirusContact_def Let_def die_def onHit_def)
  have "collide_pair c v t rs = virus_contact c (onHit ?v2) ?t3 (Num 1) (Num 0) rs"
    using live icons pos
    by (simp add: collide_pair_def Let_def COLLISION_DIAMETER_def d imp push hit t3 bug)
  with contact roll show ?thesis by simp
qed

text \<open>
  Claim C3 says that a moving target with the shield trait 1.0 that a virus
  approaches from directly ahead of its motion never reaches the kill branch, whatever
  the kill roll; the comments of the code say the same (the shield gene "blocks virus
  attacks approaching from the cell's front arc", the front being the direction of
  motion). The program does not do that. The virus at \<open>(90, 100)\<close> moves at \<open>(1, 0)\<close>
  towards the cell at \<open>(100, 100)\<close>, which has the shield 1.0 and moves at \<open>(-1, 0)\<close>
  towards the virus: the virus is straight ahead of the cell. In the pass of
  \<open>checkCollisions\<close> over the two the impulse of the collision exchanges the
  velocities before the shield is looked at, the cell then moves away from the virus,
  the shield is found facing away, and with the roll 0.5 against the kill chance 0.9
  the cell is killed.
\<close>

theorem head_on_virus_kills_shielded_cell:
  "DNA_get (dna (shielded_cell (- 1) 0)) ''shield'' = Num 1
   \<and> Math_hypot (e_vx (shielded_cell (- 1) 0)) (e_vy (shielded_cell (- 1) 0)) = Num 1
   \<and> Math_atan2 (e_y (moving_virus 1 0) - e_y (shielded_cell (- 1) 0))
                 (e_x (moving_virus 1 0) - e_x (shielded_cell (- 1) 0))
      = Math_atan2 (e_vy (shielded_cell (- 1) 0)) (e_vx (shielded_cell (- 1) 0))
   \<and> e_vx (moving_virus 1 0) = Num 1
   \<and> \<not> dying (shielded_cell (- 1) 0)
   \<and> dying (fst (checkCollisions sample_controller
                    [moving_virus 1 0, shielded_cell (- 1) 0] (sconst (Random (1 / 2)))) ! 1)"
proof -
  let ?v = "moving_virus 1 0"
  let ?t = "shielded_cell (- 1) 0"
  have shield: "DNA_get (dna ?t) ''shield'' = Num 1"
    by (simp add: shielded_cell_def DNA_get_def)
  have chance: "DNA_get (dna ?t) ''resistance'' = Num 0" "DNA_get (dna ?v) ''lethality'' = Num 0"
    by (simp_all add: shielded_cell_def moving_virus_def DNA_get_def GENE_DEFS_at_def
        GENE_DEFS_def)
  have ahead: "Math_atan2 (e_y ?v - e_y ?t) (e_x ?v - e_x ?t) = Math_atan2 (e_vy ?t) (e_vx ?t)"
    by (simp add: shielded_cell_def moving_virus_def atan2_def)
  have "dying (fst (snd (collide_pair sample_controller ?v ?t (sconst (Random (1 / 2))))))
        \<longleftrightarrow> Math_random (sconst (Random (1 / 2))) < Math_min (Num 1)
               (Math_max (Num 0) (virusKillChance sample_controller
                                    - DNA_get (dna ?t) ''resistance'')
                + DNA_get (dna ?v) ''lethality'')"
    by (rule head_on_contact_reaches_kill_roll [where xv = 90 and xt = 100 and y = 100
          and s = 1 and u = 1 and w = 0])
      (simp_all add: shielded_cell_def moving_virus_def sample_controller_def DNA_get_def)
  then have "dying (fst (snd (collide_pair sample_controller ?v ?t (sconst (Random (1 / 2))))))"
    by (simp add: chance sample_controller_def Math_random_def)
  with shield ahead show ?thesis
    by (simp add: checkCollisions_two shielded_cell_def moving_virus_def)
qed

subsection \<open>Division and the population cap\<close>

text \<open>An offspring object is derived from a parent when its trait-set is what
  \<open>reproduce\<close> returns for the parent's trait-set, at \<open>MUTATION_RATE\<close> and pool
  \<open>cell\<close>, for the random numbers drawn at that point of the frame.\<close>

lemma resetDivision_dna [simp]: "dna (fst (resetDivision e rs)) = dna e"
  by (simp add: resetDivision_def Let_def)





text \<open>A cell whose countdown is 0.\<close>

definition ready_cell :: entity where
  "ready_cell = (sample_cell 100 100 0 0)\<lparr>divisionTimer := Num 0\<rparr>"

lemma wantsToDivide_samples [simp]:
  "wantsToDivide ready_cell" "\<not> wantsToDivide (sample_cell px py pvx pvy)"
  by (simp_all add: wantsToDivide_def ready_cell_def sample_cell_def)


section \<open>Properties of the logo letters\<close>





definition sample_letter :: "real \<Rightarrow> real \<Rightarrow> letter" where
  "sample_letter count threshold =
     \<lparr>l_x = Num 100, l_y = Num 100, l_vx = Num 0, l_vy = Num 0, slotIndex = Num 0,
      ejected = False, bumpCount = Num count, totalHits = Num count,
      bumpThreshold = Num threshold, mounted = True\<rparr>"

lemma sample_letter_fields [simp]:
  "l_x (sample_letter n t) = Num 100" "l_y (sample_letter n t) = Num 100"
  "l_vx (sample_letter n t) = Num 0" "l_vy (sample_letter n t) = Num 0"
  "\<not> ejected (sample_letter n t)" "mounted (sample_letter n t)"
  "bumpCount (sample_letter n t) = Num n" "bumpThreshold (sample_letter n t) = Num t"
  by (simp_all add: sample_letter_def)


end
